theory Spec2Isabelle
  imports Main "HOL-Library.Signed_Division"
begin

section \<open>Data model of VillageGen.cpp\<close>

text \<open>
  The C++ type \<open>int\<close> is modelled by \<^typ>\<open>int\<close>. Signed overflow is undefined behaviour in
  C++, so the model describes the program on the runs where every intermediate value stays
  within the range of \<open>int\<close>. The operators \<open>/\<close> and \<open>%\<close> of C++ truncate towards zero: they
  are \<open>sdiv\<close> and \<open>smod\<close>, not \<open>div\<close> and \<open>mod\<close>.
\<close>

record Vector3i =
  vx :: int
  vy :: int
  vz :: int

record cCuboid =
  p1 :: Vector3i
  p2 :: Vector3i

datatype eBlockFace =
  BLOCK_FACE_XM | BLOCK_FACE_XP | BLOCK_FACE_YM | BLOCK_FACE_YP | BLOCK_FACE_ZM | BLOCK_FACE_ZP

text \<open>A connector of a piece: \<open>cPiece::cConnector\<close>.\<close>

record cConnector =
  m_Pos :: Vector3i
  m_Direction :: eBlockFace
  m_Type :: int

text \<open>
  A piece template, \<open>cPrefab\<close>. Only what VillageGen.cpp reads or sets is kept: the size of the
  block area, the connectors in the order \<open>AddConnector\<close> appended them, the default weight,
  the number of allowed rotations and the ground-anchoring flag behind \<open>ShouldMoveToGround()\<close>.
  The block contents are never read by this file.
\<close>

record cPrefab =
  m_Size :: Vector3i
  m_Connectors :: "cConnector list"
  m_DefaultWeight :: int
  m_AllowedRotations :: int
  m_MoveToGround :: bool

text \<open>
  A placed piece, \<open>cPlacedPiece\<close>. The parent pointer of the source points at another element
  of the same vector of placed pieces; here it is that element's index (\<open>None\<close> for the root).
\<close>

record cPlacedPiece =
  m_Parent :: "nat option"
  m_Piece :: cPrefab
  m_Coords :: Vector3i
  m_NumCCWRotations :: int
  m_Depth :: int
  m_HasBeenMovedToGround :: bool

datatype EMCSBiome =
  biDesert | biDesertM | biPlains | biSavanna | biSavannaM | biSunflowerPlains
  | biOtherBiome nat

text \<open>
  Block types: the two that VillageGen.cpp names, the four liquid blocks of BlockID.h (water
  and lava, each flowing or stationary), and every other block by its number.
\<close>

datatype BLOCKTYPE =
  E_BLOCK_GRAVEL | E_BLOCK_PLANKS
  | E_BLOCK_WATER | E_BLOCK_STATIONARY_WATER | E_BLOCK_LAVA | E_BLOCK_STATIONARY_LAVA
  | E_BLOCK_OTHER nat

type_synonym HeightMap = "int list"

text \<open>The five process-wide style pools; a pointer to one of them is its name.\<close>

datatype style =
  g_SandVillage | g_SandFlatRoofVillage | g_AlchemistVillage | g_PlainsVillage | g_JapaneseVillage

text \<open>The state of a \<open>cPrefabPiecePool\<close> that the constructor of \<open>cVillagePiecePool\<close> extends.\<close>

record cPrefabPiecePool =
  m_AllPieces :: "cPrefab list"
  m_StartingPieces :: "cPrefab list"
  m_PiecesByConnector :: "int \<Rightarrow> cPrefab list"

text \<open>
  A pool as the assembly engine sees it: the six methods of the \<open>cPiecePool\<close> interface. The
  four query methods are functions of their arguments. \<open>PiecePlaced\<close> and \<open>Reset\<close> return
  nothing and act on the pool object; here they give the state in which the call leaves the
  style pool that lies under the interface.
\<close>

record cPiecePool =
  GetPiecesWithConnector :: "int \<Rightarrow> cPrefab list"
  GetStartingPieces :: "cPrefab list"
  GetPieceWeight :: "cPlacedPiece \<Rightarrow> cConnector \<Rightarrow> cPrefab \<Rightarrow> int"
  GetStartingPieceWeight :: "cPrefab \<Rightarrow> int"
  PiecePlaced :: "cPrefab \<Rightarrow> cPrefabPiecePool"
  Reset :: cPrefabPiecePool

subsection \<open>Code of the repository outside VillageGen.cpp\<close>

text \<open>
  VillageGen.cpp calls functions that other files of the repository define (Noise.h,
  ChunkDef.h, Cuboid.h, BlockID.h, Prefab.h, PrefabPiecePool.h, PieceGenerator.h and the
  prefab tables). They are parameters of the model, collected in one record, so that every
  theorem holds whatever these functions compute.

  \<^item> \<open>ext_Width\<close>, \<open>ext_Height\<close>: \<open>cChunkDef::Width\<close> and \<open>cChunkDef::Height\<close>.
  \<^item> \<open>ext_BlockToChunk x z\<close>: the chunk coordinates \<open>cChunkDef::BlockToChunk\<close> stores.
  \<^item> \<open>ext_AbsoluteToRelative x z\<close>: what \<open>cChunkDef::AbsoluteToRelative\<close> leaves in
    \<open>(BlockX, BlockZ, ChunkX, ChunkZ)\<close>.
  \<^item> \<open>ext_GetHeight\<close>: \<open>cChunkDef::GetHeight\<close>.
  \<^item> \<open>ext_IntNoise2DInt seed\<close>, \<open>ext_IntNoise3DInt seed\<close>: the methods of a \<open>cNoise\<close>
    constructed from \<open>seed\<close>.
  \<^item> \<open>ext_PrefabWeight\<close>: \<open>cPrefab::GetPieceWeight\<close>, called on the candidate piece.
  \<^item> \<open>ext_RotateXZ\<close>: the horizontal part of \<open>cPiece::RotatePos\<close>;
    \<open>ext_RotateBlockFace\<close>: the direction of a rotated connector.
  \<^item> \<open>ext_GetPiecesWithConnector\<close>, \<open>ext_GetStartingPieces\<close>, \<open>ext_GetStartingPieceWeight\<close>,
    \<open>ext_PiecePlaced\<close>, \<open>ext_Reset\<close>: the methods of \<open>cPrefabPiecePool\<close> that
    \<open>cVillagePiecePool\<close> inherits; the last two give the pool as the call leaves it.
  \<^item> \<open>ext_GetHitBox\<close>: \<open>cPlacedPiece::GetHitBox\<close>; \<open>ext_Sort\<close>: \<open>cCuboid::Sort\<close>.
  \<^item> \<open>ext_IsBlockWater\<close>: \<open>IsBlockWater\<close> of BlockID.h.
  \<^item> \<open>ext_PrefabPool s\<close>: the \<open>cPrefabPiecePool\<close> built from the prefab tables of style \<open>s\<close>.
  \<^item> \<open>ext_PlacePieces pool seed x y z depth\<close>: the pieces that
    \<open>cBFSPieceGenerator(pool, seed).PlacePieces(x, y, z, depth, out)\<close> leaves in \<open>out\<close>.

  The engine is given the pool with its two notifications, and returns the pieces only: the
  state in which its calls of \<open>PiecePlaced\<close> and \<open>Reset\<close> leave the static style pool is not
  carried from one construction of a village to the next. Every theorem below is about one
  call; none compares two calls made one after the other.
\<close>

record externals =
  ext_Width :: int
  ext_Height :: int
  ext_BlockToChunk :: "int \<Rightarrow> int \<Rightarrow> int \<times> int"
  ext_AbsoluteToRelative :: "int \<Rightarrow> int \<Rightarrow> int \<times> int \<times> int \<times> int"
  ext_GetHeight :: "HeightMap \<Rightarrow> int \<Rightarrow> int \<Rightarrow> int"
  ext_IntNoise2DInt :: "int \<Rightarrow> int \<Rightarrow> int \<Rightarrow> int"
  ext_IntNoise3DInt :: "int \<Rightarrow> int \<Rightarrow> int \<Rightarrow> int \<Rightarrow> int"
  ext_PrefabWeight :: "cPrefab \<Rightarrow> cPlacedPiece \<Rightarrow> cConnector \<Rightarrow> int"
  ext_RotateXZ :: "cPrefab \<Rightarrow> int \<Rightarrow> int \<times> int \<Rightarrow> int \<times> int"
  ext_RotateBlockFace :: "eBlockFace \<Rightarrow> int \<Rightarrow> eBlockFace"
  ext_GetPiecesWithConnector :: "cPrefabPiecePool \<Rightarrow> int \<Rightarrow> cPrefab list"
  ext_GetStartingPieces :: "cPrefabPiecePool \<Rightarrow> cPrefab list"
  ext_GetStartingPieceWeight :: "cPrefabPiecePool \<Rightarrow> cPrefab \<Rightarrow> int"
  ext_PiecePlaced :: "cPrefabPiecePool \<Rightarrow> cPrefab \<Rightarrow> cPrefabPiecePool"
  ext_Reset :: "cPrefabPiecePool \<Rightarrow> cPrefabPiecePool"
  ext_GetHitBox :: "cPlacedPiece \<Rightarrow> cCuboid"
  ext_Sort :: "cCuboid \<Rightarrow> cCuboid"
  ext_IsBlockWater :: "BLOCKTYPE \<Rightarrow> bool"
  ext_PrefabPool :: "style \<Rightarrow> cPrefabPiecePool"
  ext_PlacePieces :: "cPiecePool \<Rightarrow> int \<Rightarrow> int \<Rightarrow> int \<Rightarrow> int \<Rightarrow> int \<Rightarrow> cPlacedPiece list"

section \<open>cVillagePiecePool\<close>

subsection \<open>GetPieceWeight\<close>

definition cVillagePiecePool_GetPieceWeight ::
  "externals \<Rightarrow> cPlacedPiece \<Rightarrow> cConnector \<Rightarrow> cPrefab \<Rightarrow> int" where
  "cVillagePiecePool_GetPieceWeight E a_PlacedPiece a_ExistingConnector a_NewPiece =
     (if m_Type a_ExistingConnector = 2 \<and> m_Depth a_PlacedPiece > 0
         \<and> vy (m_Size (m_Piece a_PlacedPiece)) = 1
      then 0
      else ext_PrefabWeight E a_NewPiece a_PlacedPiece a_ExistingConnector)"

subsection \<open>The constructor: road pieces\<close>

text \<open>
  Modelled from the spec: the constructor \<open>cPrefab(image, allowedRotations)\<close> and the methods
  \<open>AddConnector\<close> and \<open>SetDefaultWeight\<close> are defined in Prefab.cpp, which is not part of the
  source. A prefab made from a block area has the size of that area, no connector yet and no
  ground anchoring (a road follows the terrain column by column when it is drawn);
  \<open>AddConnector\<close> appends a connector with the given local position, direction and type;
  \<open>SetDefaultWeight\<close> sets the default weight, which the constructor of the pool does for
  every road before the weight is read. The block area of a road is created with the size
  \<open>(len, 1, 3)\<close> and filled with gravel; only its size is kept.
\<close>

definition cPrefab_of_BlockArea :: "Vector3i \<Rightarrow> int \<Rightarrow> cPrefab" where
  "cPrefab_of_BlockArea a_Size a_AllowedRotations =
     \<lparr> m_Size = a_Size, m_Connectors = [], m_DefaultWeight = 0,
       m_AllowedRotations = a_AllowedRotations, m_MoveToGround = False \<rparr>"

definition AddConnector :: "cPrefab \<Rightarrow> int \<Rightarrow> int \<Rightarrow> int \<Rightarrow> eBlockFace \<Rightarrow> int \<Rightarrow> cPrefab" where
  "AddConnector a_Prefab a_RelX a_RelY a_RelZ a_Direction a_Type =
     a_Prefab\<lparr> m_Connectors := m_Connectors a_Prefab @
       [\<lparr> m_Pos = \<lparr> vx = a_RelX, vy = a_RelY, vz = a_RelZ \<rparr>,
          m_Direction = a_Direction, m_Type = a_Type \<rparr>] \<rparr>"

definition SetDefaultWeight :: "cPrefab \<Rightarrow> int \<Rightarrow> cPrefab" where
  "SetDefaultWeight a_Prefab a_DefaultWeight = a_Prefab\<lparr> m_DefaultWeight := a_DefaultWeight \<rparr>"

text \<open>The loop \<open>for (int x = 1; x < len; x += 12)\<close> that adds the road connectors.\<close>

function AddRoadConnectors :: "cPrefab \<Rightarrow> int \<Rightarrow> int \<Rightarrow> cPrefab" where
  "AddRoadConnectors RoadPiece len x =
     (if x < len then
        AddRoadConnectors
          (AddConnector (AddConnector RoadPiece x 0 0 BLOCK_FACE_ZM 2) x 0 2 BLOCK_FACE_ZP 2)
          len (x + 12)
      else RoadPiece)"
  by pat_completeness auto
termination
  by (relation "measure (\<lambda>(RoadPiece, len, x). nat (len - x))") auto

text \<open>The loop \<open>for (int x = 7; x < len; x += 12)\<close> that adds the buildings connectors.\<close>

function AddBuildingConnectors :: "cPrefab \<Rightarrow> int \<Rightarrow> int \<Rightarrow> cPrefab" where
  "AddBuildingConnectors RoadPiece len x =
     (if x < len then
        AddBuildingConnectors
          (AddConnector (AddConnector RoadPiece x 0 0 BLOCK_FACE_ZM 1) x 0 2 BLOCK_FACE_ZP 1)
          len (x + 12)
      else RoadPiece)"
  by pat_completeness auto
termination
  by (relation "measure (\<lambda>(RoadPiece, len, x). nat (len - x))") auto

text \<open>One iteration of the outer loop builds the road piece of length \<open>len\<close>.\<close>

definition MakeRoadPiece :: "int \<Rightarrow> cPrefab" where
  "MakeRoadPiece len =
     (let RoadPiece = cPrefab_of_BlockArea \<lparr> vx = len, vy = 1, vz = 3 \<rparr> 1;
          RoadPiece = AddConnector RoadPiece 0 0 1 BLOCK_FACE_XM (- 2);
          RoadPiece = AddConnector RoadPiece (len - 1) 0 1 BLOCK_FACE_XP (- 2);
          RoadPiece = SetDefaultWeight RoadPiece 100;
          RoadPiece = AddRoadConnectors RoadPiece len 1;
          RoadPiece = AddBuildingConnectors RoadPiece len 7
      in RoadPiece)"

text \<open>
  The outer loop \<open>for (int len = 27; len < 60; len += 12)\<close>. \<open>m_PiecesByConnector\<close> is a
  \<open>std::map\<close> from connector type to a vector of pieces; \<open>operator[]\<close> on a missing key
  starts from the empty vector, which is the value the function model gives such a key.
\<close>

function AddRoadPieces :: "cPrefabPiecePool \<Rightarrow> int \<Rightarrow> cPrefabPiecePool" where
  "AddRoadPieces pool len =
     (if len < 60 then
        (let RoadPiece = MakeRoadPiece len;
             byc = m_PiecesByConnector pool;
             byc = byc(- 2 := byc (- 2) @ [RoadPiece]);
             byc = byc(1 := byc 1 @ [RoadPiece]);
             byc = byc(2 := byc 2 @ [RoadPiece])
         in AddRoadPieces
              (pool\<lparr> m_AllPieces := m_AllPieces pool @ [RoadPiece], m_PiecesByConnector := byc \<rparr>)
              (len + 12))
      else pool)"
  by pat_completeness auto
termination
  by (relation "measure (\<lambda>(pool, len). nat (60 - len))") auto

text \<open>
  The constructor: the base class constructor has filled the pool from the prefab tables
  (\<open>super\<close>), then the road pieces are added.
\<close>

definition cVillagePiecePool_ctor :: "cPrefabPiecePool \<Rightarrow> cPrefabPiecePool" where
  "cVillagePiecePool_ctor super = AddRoadPieces super 27"

subsection \<open>The style pool as a pool\<close>

definition cVillagePiecePool_as_pool :: "externals \<Rightarrow> cPrefabPiecePool \<Rightarrow> cPiecePool" where
  "cVillagePiecePool_as_pool E pool =
     \<lparr> GetPiecesWithConnector = ext_GetPiecesWithConnector E pool,
       GetStartingPieces = ext_GetStartingPieces E pool,
       GetPieceWeight = cVillagePiecePool_GetPieceWeight E,
       GetStartingPieceWeight = ext_GetStartingPieceWeight E pool,
       PiecePlaced = ext_PiecePlaced E pool,
       Reset = ext_Reset E pool \<rparr>"

text \<open>The static pools, one for each style, and the two arrays of pointers to them.\<close>

definition g_VillagePool :: "externals \<Rightarrow> style \<Rightarrow> cPrefabPiecePool" where
  "g_VillagePool E s = cVillagePiecePool_ctor (ext_PrefabPool E s)"

definition g_DesertVillagePools :: "style list" where
  "g_DesertVillagePools = [g_SandVillage, g_SandFlatRoofVillage, g_AlchemistVillage]"

definition g_PlainsVillagePools :: "style list" where
  "g_PlainsVillagePools = [g_PlainsVillage, g_JapaneseVillage]"

section \<open>cVillage\<close>

text \<open>
  The village is both the structure and the pool the assembly engine queries. \<open>m_Noise\<close> is a
  \<open>cNoise\<close>, kept as the seed it was constructed from. \<open>m_Prefabs\<close> is the reference to the
  underlying pool and \<open>m_HeightGen\<close> the terrain height generator, both kept as the methods
  this file calls on them.
\<close>

record cVillage =
  m_GridX :: int
  m_GridZ :: int
  m_OriginX :: int
  m_OriginZ :: int
  m_Seed :: int
  m_Noise :: int
  m_MaxSize :: int
  m_Density :: int
  m_Borders :: cCuboid
  m_Prefabs :: cPiecePool
  m_HeightGen :: "int \<Rightarrow> int \<Rightarrow> HeightMap"
  m_Pieces :: "cPlacedPiece list"
  m_RoadBlock :: BLOCKTYPE
  m_WaterRoadBlock :: BLOCKTYPE

subsection \<open>Methods of cPlacedPiece\<close>

text \<open>
  Modelled from the spec: \<open>cPlacedPiece::GetRotatedConnector\<close> is defined in
  PieceGenerator.cpp, which is not part of the source. A connector has a local position
  offset within its piece, and the rotated connector carries its absolute world position:
  the local position, rotated about the vertical axis by the piece's rotation, translated
  by the piece's world position. The rotation in the horizontal plane is a parameter.
\<close>

definition GetRotatedConnector :: "externals \<Rightarrow> cPlacedPiece \<Rightarrow> cConnector \<Rightarrow> cConnector" where
  "GetRotatedConnector E a_Piece a_Connector =
     (case ext_RotateXZ E (m_Piece a_Piece) (m_NumCCWRotations a_Piece)
             (vx (m_Pos a_Connector), vz (m_Pos a_Connector)) of
        (rx, rz) \<Rightarrow>
          \<lparr> m_Pos = \<lparr> vx = rx + vx (m_Coords a_Piece),
                      vy = vy (m_Pos a_Connector) + vy (m_Coords a_Piece),
                      vz = rz + vz (m_Coords a_Piece) \<rparr>,
            m_Direction = ext_RotateBlockFace E (m_Direction a_Connector) (m_NumCCWRotations a_Piece),
            m_Type = m_Type a_Connector \<rparr>)"

text \<open>
  The overload that takes an index reads the connector vector of the piece without a check:
  it is meaningful only where the piece has a connector at that index.
\<close>

definition GetRotatedConnectorAt :: "externals \<Rightarrow> cPlacedPiece \<Rightarrow> nat \<Rightarrow> cConnector" where
  "GetRotatedConnectorAt E a_Piece a_Index =
     GetRotatedConnector E a_Piece (m_Connectors (m_Piece a_Piece) ! a_Index)"

text \<open>
  Modelled from the spec: \<open>cPlacedPiece::MoveToGroundBy\<close> is defined in PieceGenerator.cpp,
  which is not part of the source. It offsets the piece vertically and records that the
  piece has been snapped to the ground.
\<close>

definition MoveToGroundBy :: "cPlacedPiece \<Rightarrow> int \<Rightarrow> cPlacedPiece" where
  "MoveToGroundBy a_Piece a_OffsetY =
     a_Piece\<lparr> m_Coords := (m_Coords a_Piece)\<lparr> vy := vy (m_Coords a_Piece) + a_OffsetY \<rparr>,
               m_HasBeenMovedToGround := True \<rparr>"

subsection \<open>GetPieceWeight\<close>

definition cVillage_GetPieceWeight ::
  "externals \<Rightarrow> cVillage \<Rightarrow> cPlacedPiece \<Rightarrow> cConnector \<Rightarrow> cPrefab \<Rightarrow> int" where
  "cVillage_GetPieceWeight E V a_PlacedPiece a_ExistingConnector a_NewPiece =
     (if m_Type a_ExistingConnector = 1
      then
        (let Coords = m_Pos (GetRotatedConnector E a_PlacedPiece a_ExistingConnector);
             rnd = (ext_IntNoise3DInt E (m_Noise V) (vx Coords) (vy Coords) (vz Coords) sdiv 7)
                     smod 100
         in if rnd > m_Density V then 0
            else GetPieceWeight (m_Prefabs V) a_PlacedPiece a_ExistingConnector a_NewPiece)
      else GetPieceWeight (m_Prefabs V) a_PlacedPiece a_ExistingConnector a_NewPiece)"


subsection \<open>The village as a pool\<close>

text \<open>
  \<open>GetPiecesWithConnector\<close>, \<open>GetStartingPieces\<close>, \<open>GetStartingPieceWeight\<close>, \<open>PiecePlaced\<close>
  and \<open>Reset\<close> relay to \<open>m_Prefabs\<close>; \<open>GetPieceWeight\<close> is the density check above.
\<close>

definition cVillage_as_pool :: "externals \<Rightarrow> cVillage \<Rightarrow> cPiecePool" where
  "cVillage_as_pool E V =
     \<lparr> GetPiecesWithConnector = GetPiecesWithConnector (m_Prefabs V),
       GetStartingPieces = GetStartingPieces (m_Prefabs V),
       GetPieceWeight = cVillage_GetPieceWeight E V,
       GetStartingPieceWeight = GetStartingPieceWeight (m_Prefabs V),
       PiecePlaced = PiecePlaced (m_Prefabs V),
       Reset = Reset (m_Prefabs V) \<rparr>"

subsection \<open>PlacePieceOnGround\<close>

definition PlacePieceOnGround :: "externals \<Rightarrow> cVillage \<Rightarrow> cPlacedPiece \<Rightarrow> cPlacedPiece" where
  "PlacePieceOnGround E V a_Piece =
     (let FirstConnector = GetRotatedConnectorAt E a_Piece 0 in
      case ext_AbsoluteToRelative E (vx (m_Pos FirstConnector)) (vz (m_Pos FirstConnector)) of
        (BlockX, BlockZ, ChunkX, ChunkZ) \<Rightarrow>
          (let HeightMap = m_HeightGen V ChunkX ChunkZ;
               TerrainHeight = ext_GetHeight E HeightMap BlockX BlockZ
           in MoveToGroundBy a_Piece (TerrainHeight - vy (m_Pos FirstConnector) + 1)))"

subsection \<open>MoveAllDescendants\<close>

text \<open>
  The source recurses inside its \<open>for\<close> loop. \<open>MoveAllDescendants_for\<close> is the loop from
  index \<open>i\<close>, with \<open>num\<close> the size read once on entry; the pivot is compared by index, as the
  source compares the parent pointer with the pivot's address. The recursive call works on
  the vector the loop has already updated, and the loop goes on with what the call returns.
\<close>

function MoveAllDescendants :: "cPlacedPiece list \<Rightarrow> nat \<Rightarrow> int \<Rightarrow> cPlacedPiece list"
  and MoveAllDescendants_for ::
    "cPlacedPiece list \<Rightarrow> nat \<Rightarrow> nat \<Rightarrow> int \<Rightarrow> nat \<Rightarrow> cPlacedPiece list"
where
  "MoveAllDescendants a_PlacedPieces a_Pivot a_HeightDifference =
     MoveAllDescendants_for a_PlacedPieces (length a_PlacedPieces) a_Pivot a_HeightDifference
       (a_Pivot + 1)"
| "MoveAllDescendants_for a_PlacedPieces num a_Pivot a_HeightDifference i =
     (if i < num then
        (if m_Parent (a_PlacedPieces ! i) = Some a_Pivot
            \<and> \<not> m_MoveToGround (m_Piece (a_PlacedPieces ! i))
         then MoveAllDescendants_for
                (MoveAllDescendants
                   (a_PlacedPieces[i := MoveToGroundBy (a_PlacedPieces ! i) a_HeightDifference])
                   i a_HeightDifference)
                num a_Pivot a_HeightDifference (i + 1)
         else MoveAllDescendants_for a_PlacedPieces num a_Pivot a_HeightDifference (i + 1))
      else a_PlacedPieces)"
  by pat_completeness auto

lemma MoveAllDescendants_dom_length:
  "MoveAllDescendants_MoveAllDescendants_for_dom (Inl (ps, pivot, d)) \<Longrightarrow>
     length (MoveAllDescendants ps pivot d) = length ps"
  "MoveAllDescendants_MoveAllDescendants_for_dom (Inr (ps', num, pivot', d', i)) \<Longrightarrow>
     length (MoveAllDescendants_for ps' num pivot' d' i) = length ps'"
  by (induct ps pivot d and ps' num pivot' d' i
        rule: MoveAllDescendants_MoveAllDescendants_for.pinduct)
     (simp_all add: MoveAllDescendants.psimps MoveAllDescendants_for.psimps)

termination MoveAllDescendants
proof (relation "measure (\<lambda>s. case s of
           Inl (ps, pivot, d) \<Rightarrow> 2 * (length ps - (pivot + 1)) + 1
         | Inr (ps, num, pivot, d, i) \<Rightarrow> 2 * (max num (length ps) - i))")
qed (auto simp: MoveAllDescendants_dom_length)

subsection \<open>The constructor\<close>

text \<open>
  The member initialisers fill the fields (\<open>cVillage_init\<close>); the body runs the assembly
  engine with the village itself as the pool, returns at once when no piece was placed, and
  otherwise snaps the root piece, if it is ground-anchored, and cascades the height
  difference.
\<close>

definition cVillage_init ::
  "externals \<Rightarrow> int \<Rightarrow> int \<Rightarrow> int \<Rightarrow> int \<Rightarrow> int \<Rightarrow> int \<Rightarrow> int \<Rightarrow> cPiecePool
     \<Rightarrow> (int \<Rightarrow> int \<Rightarrow> HeightMap) \<Rightarrow> BLOCKTYPE \<Rightarrow> BLOCKTYPE \<Rightarrow> cVillage" where
  "cVillage_init E a_Seed a_GridX a_GridZ a_OriginX a_OriginZ a_MaxSize a_Density
       a_Prefabs a_HeightGen a_RoadBlock a_WaterRoadBlock =
     \<lparr> m_GridX = a_GridX, m_GridZ = a_GridZ,
       m_OriginX = a_OriginX, m_OriginZ = a_OriginZ,
       m_Seed = a_Seed,
       m_Noise = a_Seed,
       m_MaxSize = a_MaxSize,
       m_Density = a_Density,
       m_Borders =
         \<lparr> p1 = \<lparr> vx = a_OriginX - a_MaxSize, vy = 0, vz = a_OriginZ - a_MaxSize \<rparr>,
           p2 = \<lparr> vx = a_OriginX + a_MaxSize, vy = ext_Height E - 1,
                  vz = a_OriginZ + a_MaxSize \<rparr> \<rparr>,
       m_Prefabs = a_Prefabs,
       m_HeightGen = a_HeightGen,
       m_Pieces = [],
       m_RoadBlock = a_RoadBlock,
       m_WaterRoadBlock = a_WaterRoadBlock \<rparr>"

definition cVillage_ctor ::
  "externals \<Rightarrow> int \<Rightarrow> int \<Rightarrow> int \<Rightarrow> int \<Rightarrow> int \<Rightarrow> int \<Rightarrow> int \<Rightarrow> int \<Rightarrow> cPiecePool
     \<Rightarrow> (int \<Rightarrow> int \<Rightarrow> HeightMap) \<Rightarrow> BLOCKTYPE \<Rightarrow> BLOCKTYPE \<Rightarrow> cVillage" where
  "cVillage_ctor E a_Seed a_GridX a_GridZ a_OriginX a_OriginZ a_MaxRoadDepth a_MaxSize a_Density
       a_Prefabs a_HeightGen a_RoadBlock a_WaterRoadBlock =
     (let V = cVillage_init E a_Seed a_GridX a_GridZ a_OriginX a_OriginZ a_MaxSize a_Density
                a_Prefabs a_HeightGen a_RoadBlock a_WaterRoadBlock;
          Pieces = ext_PlacePieces E (cVillage_as_pool E V) a_Seed a_OriginX 0 a_OriginZ
                     (a_MaxRoadDepth + 1)
      in if Pieces = [] then V\<lparr> m_Pieces := Pieces \<rparr>
         else if m_MoveToGround (m_Piece (Pieces ! 0))
         then
           (let OrigPosY = vy (m_Coords (Pieces ! 0));
                Pieces1 = Pieces[0 := PlacePieceOnGround E V (Pieces ! 0)];
                NewPosY = vy (m_Coords (Pieces1 ! 0))
            in V\<lparr> m_Pieces := MoveAllDescendants Pieces1 0 (NewPosY - OrigPosY) \<rparr>)
         else V\<lparr> m_Pieces := Pieces \<rparr>)"

subsection \<open>DrawRoad\<close>

text \<open>
  Modelled from the spec: \<open>cChunkDesc\<close> is defined in ChunkDesc.h, which is not part of the
  source. It is the chunk-writing sink: the chunk's coordinates and its mutable block
  storage, read and written at chunk-local coordinates.
\<close>

record cChunkDesc =
  m_ChunkX :: int
  m_ChunkZ :: int
  m_BlockTypes :: "int \<times> int \<times> int \<Rightarrow> BLOCKTYPE"

definition GetBlockType :: "cChunkDesc \<Rightarrow> int \<Rightarrow> int \<Rightarrow> int \<Rightarrow> BLOCKTYPE" where
  "GetBlockType a_Chunk a_RelX a_RelY a_RelZ = m_BlockTypes a_Chunk (a_RelX, a_RelY, a_RelZ)"

definition SetBlockType :: "cChunkDesc \<Rightarrow> int \<Rightarrow> int \<Rightarrow> int \<Rightarrow> BLOCKTYPE \<Rightarrow> cChunkDesc" where
  "SetBlockType a_Chunk a_RelX a_RelY a_RelZ a_BlockType =
     a_Chunk\<lparr> m_BlockTypes := (m_BlockTypes a_Chunk)((a_RelX, a_RelY, a_RelZ) := a_BlockType) \<rparr>"

text \<open>The inner loop, over \<open>x\<close> from its current value up to \<open>MaxX\<close>, in row \<open>z\<close>.\<close>

function DrawRoad_for_x ::
  "externals \<Rightarrow> cVillage \<Rightarrow> HeightMap \<Rightarrow> int \<Rightarrow> int \<Rightarrow> int \<Rightarrow> cChunkDesc \<Rightarrow> cChunkDesc" where
  "DrawRoad_for_x E V a_HeightMap z MaxX x a_Chunk =
     (if x \<le> MaxX then
        DrawRoad_for_x E V a_HeightMap z MaxX (x + 1)
          (if ext_IsBlockWater E
                (GetBlockType a_Chunk x (ext_GetHeight E a_HeightMap x z) z)
           then SetBlockType a_Chunk x (ext_GetHeight E a_HeightMap x z) z (m_WaterRoadBlock V)
           else SetBlockType a_Chunk x (ext_GetHeight E a_HeightMap x z) z (m_RoadBlock V))
      else a_Chunk)"
  by pat_completeness auto
termination
  by (relation "measure (\<lambda>(E, V, hm, z, MaxX, x, C). nat (MaxX + 1 - x))") auto

text \<open>The outer loop, over \<open>z\<close> from its current value up to \<open>MaxZ\<close>.\<close>

function DrawRoad_for_z ::
  "externals \<Rightarrow> cVillage \<Rightarrow> HeightMap \<Rightarrow> int \<Rightarrow> int \<Rightarrow> int \<Rightarrow> int \<Rightarrow> cChunkDesc \<Rightarrow> cChunkDesc" where
  "DrawRoad_for_z E V a_HeightMap MinX MaxX MaxZ z a_Chunk =
     (if z \<le> MaxZ then
        DrawRoad_for_z E V a_HeightMap MinX MaxX MaxZ (z + 1)
          (DrawRoad_for_x E V a_HeightMap z MaxX MinX a_Chunk)
      else a_Chunk)"
  by pat_completeness auto
termination
  by (relation "measure (\<lambda>(E, V, hm, MinX, MaxX, MaxZ, z, C). nat (MaxZ + 1 - z))") auto

text \<open>The four bounds of the clipped footprint, in chunk-local coordinates.\<close>

definition DrawRoad_MinX :: "externals \<Rightarrow> cChunkDesc \<Rightarrow> cPlacedPiece \<Rightarrow> int" where
  "DrawRoad_MinX E a_Chunk a_Road =
     max (vx (p1 (ext_Sort E (ext_GetHitBox E a_Road))) - m_ChunkX a_Chunk * ext_Width E) 0"

definition DrawRoad_MaxX :: "externals \<Rightarrow> cChunkDesc \<Rightarrow> cPlacedPiece \<Rightarrow> int" where
  "DrawRoad_MaxX E a_Chunk a_Road =
     min (vx (p2 (ext_Sort E (ext_GetHitBox E a_Road))) - m_ChunkX a_Chunk * ext_Width E)
         (ext_Width E - 1)"

definition DrawRoad_MinZ :: "externals \<Rightarrow> cChunkDesc \<Rightarrow> cPlacedPiece \<Rightarrow> int" where
  "DrawRoad_MinZ E a_Chunk a_Road =
     max (vz (p1 (ext_Sort E (ext_GetHitBox E a_Road))) - m_ChunkZ a_Chunk * ext_Width E) 0"

definition DrawRoad_MaxZ :: "externals \<Rightarrow> cChunkDesc \<Rightarrow> cPlacedPiece \<Rightarrow> int" where
  "DrawRoad_MaxZ E a_Chunk a_Road =
     min (vz (p2 (ext_Sort E (ext_GetHitBox E a_Road))) - m_ChunkZ a_Chunk * ext_Width E)
         (ext_Width E - 1)"

definition DrawRoad ::
  "externals \<Rightarrow> cVillage \<Rightarrow> cChunkDesc \<Rightarrow> cPlacedPiece \<Rightarrow> HeightMap \<Rightarrow> cChunkDesc" where
  "DrawRoad E V a_Chunk a_Road a_HeightMap =
     DrawRoad_for_z E V a_HeightMap
       (DrawRoad_MinX E a_Chunk a_Road) (DrawRoad_MaxX E a_Chunk a_Road)
       (DrawRoad_MaxZ E a_Chunk a_Road) (DrawRoad_MinZ E a_Chunk a_Road) a_Chunk"

section \<open>cVillageGen\<close>

text \<open>
  The generator object. Its members \<open>m_Seed\<close>, \<open>m_Noise\<close>, \<open>m_MaxDepth\<close>, ... carry the prefix
  \<open>gen_\<close> here, the plain names being those of the village's fields. \<open>gen_Seed\<close> is the seed
  the base class \<open>cGridStructGen\<close> keeps, \<open>gen_Noise\<close> the seed of the generator's own
  \<open>cNoise\<close>; the biome generator and the terrain height generator are kept as the one method
  this file calls on each.
\<close>

record cVillageGen =
  gen_Seed :: int
  gen_Noise :: int
  gen_MaxDepth :: int
  gen_MaxSize :: int
  gen_MinDensity :: int
  gen_MaxDensity :: int
  gen_BiomeGen :: "int \<Rightarrow> int \<Rightarrow> EMCSBiome list"
  gen_HeightGen :: "int \<Rightarrow> int \<Rightarrow> HeightMap"

definition cVillageGen_ctor ::
  "int \<Rightarrow> int \<Rightarrow> int \<Rightarrow> int \<Rightarrow> int \<Rightarrow> int \<Rightarrow> int \<Rightarrow> (int \<Rightarrow> int \<Rightarrow> EMCSBiome list)
     \<Rightarrow> (int \<Rightarrow> int \<Rightarrow> HeightMap) \<Rightarrow> cVillageGen" where
  "cVillageGen_ctor a_Seed a_GridSize a_MaxOffset a_MaxDepth a_MaxSize a_MinDensity a_MaxDensity
       a_BiomeGen a_HeightGen =
     \<lparr> gen_Seed = a_Seed,
       gen_Noise = a_Seed + 1000,
       gen_MaxDepth = a_MaxDepth,
       gen_MaxSize = a_MaxSize,
       gen_MinDensity = a_MinDensity,
       gen_MaxDensity = a_MaxDensity,
       gen_BiomeGen = a_BiomeGen,
       gen_HeightGen = a_HeightGen \<rparr>"

subsection \<open>CreateStructure\<close>

text \<open>
  \<open>rnd % ARRAYCOUNT(...)\<close> has a \<open>size_t\<close> on the right, so \<open>rnd\<close> is converted to \<open>size_t\<close>
  before the remainder is taken: a negative \<open>rnd\<close> wraps around, and the index is never
  negative. The width is taken as 64 bits; the remainders by 2 and by 3 taken below are the
  same for 32 bits.
\<close>

definition to_size_t :: "int \<Rightarrow> int" where
  "to_size_t k = k mod 2 ^ 64"

text \<open>
  The loop over the biome map. It either returns from \<open>CreateStructure\<close> at a
  village-unfriendly biome (\<open>Bailed\<close>) or runs to the end and leaves \<open>VillagePrefabs\<close>
  (\<open>None\<close> is the null pointer).
\<close>

datatype biome_scan = Bailed | Scanned "style option"

fun ScanBiomes :: "style \<Rightarrow> style \<Rightarrow> EMCSBiome list \<Rightarrow> style option \<Rightarrow> biome_scan" where
  "ScanBiomes DesertVillage PlainsVillage [] VillagePrefabs = Scanned VillagePrefabs"
| "ScanBiomes DesertVillage PlainsVillage (b # Biomes) VillagePrefabs =
     (case b of
        biDesert \<Rightarrow> ScanBiomes DesertVillage PlainsVillage Biomes (Some DesertVillage)
      | biDesertM \<Rightarrow> ScanBiomes DesertVillage PlainsVillage Biomes (Some DesertVillage)
      | biPlains \<Rightarrow> ScanBiomes DesertVillage PlainsVillage Biomes (Some PlainsVillage)
      | biSavanna \<Rightarrow> ScanBiomes DesertVillage PlainsVillage Biomes (Some PlainsVillage)
      | biSavannaM \<Rightarrow> ScanBiomes DesertVillage PlainsVillage Biomes (Some PlainsVillage)
      | biSunflowerPlains \<Rightarrow> ScanBiomes DesertVillage PlainsVillage Biomes (Some PlainsVillage)
      | biOtherBiome n \<Rightarrow> Bailed)"

definition CreateStructure ::
  "externals \<Rightarrow> cVillageGen \<Rightarrow> int \<Rightarrow> int \<Rightarrow> int \<Rightarrow> int \<Rightarrow> cVillage option" where
  "CreateStructure E G a_GridX a_GridZ a_OriginX a_OriginZ =
     (case ext_BlockToChunk E a_OriginX a_OriginZ of
        (ChunkX, ChunkZ) \<Rightarrow>
          (let Biomes = gen_BiomeGen G ChunkX ChunkZ;
               RoadBlock = E_BLOCK_GRAVEL;
               WaterRoadBlock = E_BLOCK_PLANKS;
               rnd = ext_IntNoise2DInt E (gen_Noise G) a_OriginX a_OriginZ sdiv 11;
               PlainsVillage =
                 g_PlainsVillagePools ! nat (to_size_t rnd mod int (length g_PlainsVillagePools));
               DesertVillage =
                 g_DesertVillagePools ! nat (to_size_t rnd mod int (length g_DesertVillagePools))
           in case ScanBiomes DesertVillage PlainsVillage Biomes None of
                Bailed \<Rightarrow> None
              | Scanned VillagePrefabs \<Rightarrow>
                  (let Density =
                         (if gen_MaxDensity G > gen_MinDensity G
                          then gen_MinDensity G
                                 + rnd smod (gen_MaxDensity G - gen_MinDensity G)
                          else gen_MinDensity G)
                   in case VillagePrefabs of
                        None \<Rightarrow> None
                      | Some s \<Rightarrow>
                          Some (cVillage_ctor E (gen_Seed G) a_GridX a_GridZ a_OriginX a_OriginZ
                                  (gen_MaxDepth G) (gen_MaxSize G) Density
                                  (cVillagePiecePool_as_pool E (g_VillagePool E s))
                                  (gen_HeightGen G) RoadBlock WaterRoadBlock))))"

section \<open>Notions used in the statements\<close>

subsection \<open>The pieces the cascade reaches\<close>

text \<open>
  \<open>connector_driven ps pivot k\<close>: piece \<open>k\<close> hangs below piece \<open>pivot\<close> through a chain of
  parents in which every piece from \<open>k\<close> up to the child of \<open>pivot\<close> is not ground-anchored. The
  chain follows the parent indices downwards (\<open>j < k\<close>): the assembly engine appends a child
  after its parent, and the loop of \<open>MoveAllDescendants\<close> looks for children only behind the
  pivot. \<open>top_child\<close> names the child of \<open>pivot\<close> at the top of that chain, and \<open>skel\<close> keeps of
  each placed piece the two fields the chain depends on.
\<close>

function connector_driven :: "cPlacedPiece list \<Rightarrow> nat \<Rightarrow> nat \<Rightarrow> bool" where
  "connector_driven ps pivot k =
     (if k < length ps \<and> \<not> m_MoveToGround (m_Piece (ps ! k)) then
        (case m_Parent (ps ! k) of
           None \<Rightarrow> False
         | Some j \<Rightarrow> if j < k then (j = pivot \<or> connector_driven ps pivot j) else False)
      else False)"
  by pat_completeness auto
termination
  by (relation "measure (\<lambda>(ps, pivot, k). k)") auto

function top_child :: "cPlacedPiece list \<Rightarrow> nat \<Rightarrow> nat \<Rightarrow> nat option" where
  "top_child ps pivot k =
     (if k < length ps \<and> \<not> m_MoveToGround (m_Piece (ps ! k)) then
        (case m_Parent (ps ! k) of
           None \<Rightarrow> None
         | Some j \<Rightarrow> if j < k then (if j = pivot then Some k else top_child ps pivot j) else None)
      else None)"
  by pat_completeness auto
termination
  by (relation "measure (\<lambda>(ps, pivot, k). k)") auto

definition skel :: "cPlacedPiece list \<Rightarrow> (nat option \<times> bool) list" where
  "skel ps = map (\<lambda>p. (m_Parent p, m_MoveToGround (m_Piece p))) ps"

text \<open>
  The same notion on the tree alone, as the chain of parents without any reference to the
  order of the vector: \<open>hangs_below ps pivot k\<close>. In a vector in which every parent stands
  before its children (\<open>parents_first\<close>), as the assembly engine builds it by appending, the
  two notions agree.
\<close>

inductive hangs_below :: "cPlacedPiece list \<Rightarrow> nat \<Rightarrow> nat \<Rightarrow> bool"
  for ps :: "cPlacedPiece list" and pivot :: nat
where
  child: "k < length ps \<Longrightarrow> m_Parent (ps ! k) = Some pivot
          \<Longrightarrow> \<not> m_MoveToGround (m_Piece (ps ! k)) \<Longrightarrow> hangs_below ps pivot k"
| below: "k < length ps \<Longrightarrow> m_Parent (ps ! k) = Some j
          \<Longrightarrow> \<not> m_MoveToGround (m_Piece (ps ! k)) \<Longrightarrow> hangs_below ps pivot j
          \<Longrightarrow> hangs_below ps pivot k"

definition parents_first :: "cPlacedPiece list \<Rightarrow> bool" where
  "parents_first ps = (\<forall>k<length ps. \<forall>j. m_Parent (ps ! k) = Some j \<longrightarrow> j < k)"

subsection \<open>The block a road writes\<close>

text \<open>
  \<open>paved E V chunk pos\<close> is the block the body of the loops of \<open>DrawRoad\<close> writes at \<open>pos\<close>,
  chosen by the block that \<open>chunk\<close> holds there.
\<close>

definition paved :: "externals \<Rightarrow> cVillage \<Rightarrow> cChunkDesc \<Rightarrow> int \<times> int \<times> int \<Rightarrow> BLOCKTYPE" where
  "paved E V a_Chunk pos =
     (if ext_IsBlockWater E (m_BlockTypes a_Chunk pos) then m_WaterRoadBlock V else m_RoadBlock V)"

subsection \<open>Liquid blocks\<close>

text \<open>
  The specification speaks of a surface block that is a liquid. The liquid blocks are water
  and lava, flowing or stationary.
\<close>

definition IsBlockLiquid :: "BLOCKTYPE \<Rightarrow> bool" where
  "IsBlockLiquid b =
     (b = E_BLOCK_WATER \<or> b = E_BLOCK_STATIONARY_WATER
      \<or> b = E_BLOCK_LAVA \<or> b = E_BLOCK_STATIONARY_LAVA)"

subsection \<open>The connectors along the long edges of a road\<close>

text \<open>
  \<open>side_positions first len\<close> are the positions \<open>first\<close>, \<open>first + 12\<close>, \<open>first + 24\<close>, ... below
  \<open>len\<close>; \<open>side_connectors first len t\<close> are the connectors of type \<open>t\<close> at these positions on
  both long edges of a road: at \<open>z = 0\<close> facing \<open>ZM\<close> and at \<open>z = 2\<close> facing \<open>ZP\<close>.
\<close>

definition side_positions :: "int \<Rightarrow> int \<Rightarrow> int set" where
  "side_positions first len = {x. first \<le> x \<and> x < len \<and> (x - first) mod 12 = 0}"

definition side_connectors :: "int \<Rightarrow> int \<Rightarrow> int \<Rightarrow> cConnector set" where
  "side_connectors first len t =
     (\<Union>x \<in> side_positions first len.
        {\<lparr> m_Pos = \<lparr> vx = x, vy = 0, vz = 0 \<rparr>, m_Direction = BLOCK_FACE_ZM, m_Type = t \<rparr>,
         \<lparr> m_Pos = \<lparr> vx = x, vy = 0, vz = 2 \<rparr>, m_Direction = BLOCK_FACE_ZP, m_Type = t \<rparr>})"

subsection \<open>Biome families, the biome sample and the hash of the origin\<close>

text \<open>
  The two families of the \<open>switch\<close> in \<open>CreateStructure\<close>; a biome is village-friendly when
  it belongs to one of them. \<open>sampled_biomes\<close> is the biome map of the chunk that contains the
  origin, \<open>origin_hash\<close> the value \<open>rnd\<close> derived from the origin coordinates,
  \<open>chosen_density\<close> the density computed from it, and \<open>chosen_style\<close> the pool that the family
  of the last sampled biome and the hash select.
\<close>

definition desert_family :: "EMCSBiome \<Rightarrow> bool" where
  "desert_family b = (b = biDesert \<or> b = biDesertM)"

definition plains_family :: "EMCSBiome \<Rightarrow> bool" where
  "plains_family b =
     (b = biPlains \<or> b = biSavanna \<or> b = biSavannaM \<or> b = biSunflowerPlains)"

definition village_friendly :: "EMCSBiome \<Rightarrow> bool" where
  "village_friendly b = (desert_family b \<or> plains_family b)"

definition sampled_biomes :: "externals \<Rightarrow> cVillageGen \<Rightarrow> int \<Rightarrow> int \<Rightarrow> EMCSBiome list" where
  "sampled_biomes E G a_OriginX a_OriginZ =
     gen_BiomeGen G (fst (ext_BlockToChunk E a_OriginX a_OriginZ))
                    (snd (ext_BlockToChunk E a_OriginX a_OriginZ))"

definition origin_hash :: "externals \<Rightarrow> cVillageGen \<Rightarrow> int \<Rightarrow> int \<Rightarrow> int" where
  "origin_hash E G a_OriginX a_OriginZ =
     ext_IntNoise2DInt E (gen_Noise G) a_OriginX a_OriginZ sdiv 11"

definition chosen_density :: "externals \<Rightarrow> cVillageGen \<Rightarrow> int \<Rightarrow> int \<Rightarrow> int" where
  "chosen_density E G a_OriginX a_OriginZ =
     (if gen_MaxDensity G > gen_MinDensity G
      then gen_MinDensity G
             + origin_hash E G a_OriginX a_OriginZ smod (gen_MaxDensity G - gen_MinDensity G)
      else gen_MinDensity G)"

definition chosen_style :: "externals \<Rightarrow> cVillageGen \<Rightarrow> int \<Rightarrow> int \<Rightarrow> style" where
  "chosen_style E G a_OriginX a_OriginZ =
     (if desert_family (last (sampled_biomes E G a_OriginX a_OriginZ))
      then g_DesertVillagePools ! nat (to_size_t (origin_hash E G a_OriginX a_OriginZ) mod 3)
      else g_PlainsVillagePools ! nat (to_size_t (origin_hash E G a_OriginX a_OriginZ) mod 2))"

section \<open>Example data\<close>

text \<open>
  One concrete choice of the parameters, used to instantiate the theorems below: chunks 16
  blocks wide and 256 high, a small integer hash that is never negative, rotation by quarter
  turns, and an assembly engine that places a well, a road on its connector, and three
  buildings.
\<close>

definition ex_Well :: cPrefab where
  "ex_Well =
     \<lparr> m_Size = \<lparr> vx = 5, vy = 12, vz = 5 \<rparr>,
       m_Connectors = [\<lparr> m_Pos = \<lparr> vx = 2, vy = 8, vz = 0 \<rparr>,
                         m_Direction = BLOCK_FACE_ZM, m_Type = 2 \<rparr>],
       m_DefaultWeight = 100, m_AllowedRotations = 7, m_MoveToGround = True \<rparr>"

definition ex_House :: cPrefab where
  "ex_House =
     \<lparr> m_Size = \<lparr> vx = 7, vy = 6, vz = 9 \<rparr>,
       m_Connectors = [\<lparr> m_Pos = \<lparr> vx = 3, vy = 1, vz = 0 \<rparr>,
                         m_Direction = BLOCK_FACE_ZM, m_Type = - 1 \<rparr>],
       m_DefaultWeight = 50, m_AllowedRotations = 7, m_MoveToGround = False \<rparr>"

definition ex_Farm :: cPrefab where
  "ex_Farm = ex_House\<lparr> m_Size := \<lparr> vx = 9, vy = 3, vz = 9 \<rparr>, m_MoveToGround := True \<rparr>"

definition ex_Road :: cPrefab where
  "ex_Road =
     \<lparr> m_Size = \<lparr> vx = 27, vy = 1, vz = 3 \<rparr>,
       m_Connectors = [\<lparr> m_Pos = \<lparr> vx = 0, vy = 0, vz = 1 \<rparr>,
                         m_Direction = BLOCK_FACE_XM, m_Type = - 2 \<rparr>,
                       \<lparr> m_Pos = \<lparr> vx = 7, vy = 0, vz = 0 \<rparr>,
                         m_Direction = BLOCK_FACE_ZM, m_Type = 1 \<rparr>,
                       \<lparr> m_Pos = \<lparr> vx = 13, vy = 0, vz = 2 \<rparr>,
                         m_Direction = BLOCK_FACE_ZP, m_Type = 2 \<rparr>],
       m_DefaultWeight = 100, m_AllowedRotations = 1, m_MoveToGround = False \<rparr>"

definition ex_Placed :: "nat option \<Rightarrow> cPrefab \<Rightarrow> int \<Rightarrow> int \<Rightarrow> int \<Rightarrow> int \<Rightarrow> cPlacedPiece" where
  "ex_Placed parent piece ax ay az depth =
     \<lparr> m_Parent = parent, m_Piece = piece, m_Coords = \<lparr> vx = ax, vy = ay, vz = az \<rparr>,
       m_NumCCWRotations = 0, m_Depth = depth, m_HasBeenMovedToGround = False \<rparr>"

text \<open>
  The well is the root; the road hangs on the well; a house and a farm hang on the road; a
  second house hangs on the farm.
\<close>

definition ex_Pieces :: "int \<Rightarrow> int \<Rightarrow> int \<Rightarrow> cPlacedPiece list" where
  "ex_Pieces ax ay az =
     [ex_Placed None ex_Well ax ay az 0,
      ex_Placed (Some 0) ex_Road (ax + 2) (ay + 8) (az - 3) 1,
      ex_Placed (Some 1) ex_House (ax + 6) (ay + 7) (az - 12) 2,
      ex_Placed (Some 1) ex_Farm (ax + 12) (ay + 7) (az) 2,
      ex_Placed (Some 3) ex_House (ax + 12) (ay + 7) (az + 9) 3]"

definition ex_PrefabPool :: "style \<Rightarrow> cPrefabPiecePool" where
  "ex_PrefabPool s =
     \<lparr> m_AllPieces = [ex_House, ex_Farm],
       m_StartingPieces = [ex_Well],
       m_PiecesByConnector = (\<lambda>t. if t = - 1 then [ex_House, ex_Farm] else []) \<rparr>"

definition ex_E :: externals where
  "ex_E =
     \<lparr> ext_Width = 16,
       ext_Height = 256,
       ext_BlockToChunk = (\<lambda>x z. (x div 16, z div 16)),
       ext_AbsoluteToRelative = (\<lambda>x z. (x mod 16, z mod 16, x div 16, z div 16)),
       ext_GetHeight = (\<lambda>hm x z. hm ! nat (x + 16 * z)),
       ext_IntNoise2DInt = (\<lambda>seed x z. (seed + 57 * x + 3249 * z) mod 2147483648),
       ext_IntNoise3DInt = (\<lambda>seed x y z. (seed + x + 57 * y + 3249 * z) mod 2147483648),
       ext_PrefabWeight = (\<lambda>a_NewPiece a_PlacedPiece a_Connector. m_DefaultWeight a_NewPiece),
       ext_RotateXZ = (\<lambda>piece n (x, z).
          if n = 1 then (z, vx (m_Size piece) - x - 1)
          else if n = 2 then (vx (m_Size piece) - x - 1, vz (m_Size piece) - z - 1)
          else if n = 3 then (vz (m_Size piece) - z - 1, x)
          else (x, z)),
       ext_RotateBlockFace = (\<lambda>face n. face),
       ext_GetPiecesWithConnector = (\<lambda>pool t. m_PiecesByConnector pool t),
       ext_GetStartingPieces = (\<lambda>pool. m_StartingPieces pool),
       ext_GetStartingPieceWeight = (\<lambda>pool piece. m_DefaultWeight piece),
       ext_PiecePlaced = (\<lambda>pool piece. pool),
       ext_Reset = (\<lambda>pool. pool),
       ext_GetHitBox = (\<lambda>piece.
          \<lparr> p1 = m_Coords piece,
            p2 = \<lparr> vx = vx (m_Coords piece) + vx (m_Size (m_Piece piece)) - 1,
                   vy = vy (m_Coords piece) + vy (m_Size (m_Piece piece)) - 1,
                   vz = vz (m_Coords piece) + vz (m_Size (m_Piece piece)) - 1 \<rparr> \<rparr>),
       ext_Sort = (\<lambda>c.
          \<lparr> p1 = \<lparr> vx = min (vx (p1 c)) (vx (p2 c)), vy = min (vy (p1 c)) (vy (p2 c)),
                   vz = min (vz (p1 c)) (vz (p2 c)) \<rparr>,
            p2 = \<lparr> vx = max (vx (p1 c)) (vx (p2 c)), vy = max (vy (p1 c)) (vy (p2 c)),
                   vz = max (vz (p1 c)) (vz (p2 c)) \<rparr> \<rparr>),
       ext_IsBlockWater = (\<lambda>b. b = E_BLOCK_WATER \<or> b = E_BLOCK_STATIONARY_WATER),
       ext_PrefabPool = ex_PrefabPool,
       ext_PlacePieces = (\<lambda>pool seed ax ay az depth. ex_Pieces ax ay az) \<rparr>"

text \<open>A village record over the plains pool, with density 50 and flat terrain at height 64.\<close>

definition ex_V :: cVillage where
  "ex_V = cVillage_init ex_E 1 0 0 0 0 80 50
            (cVillagePiecePool_as_pool ex_E (g_VillagePool ex_E g_PlainsVillage))
            (\<lambda>cx cz. replicate 256 64) E_BLOCK_GRAVEL E_BLOCK_PLANKS"

text \<open>
  The village the constructor builds from the example pieces, on flat terrain at height 70.
\<close>

definition ex_Village :: cVillage where
  "ex_Village = cVillage_ctor ex_E 1 0 0 0 0 2 80 50
            (cVillagePiecePool_as_pool ex_E (g_VillagePool ex_E g_PlainsVillage))
            (\<lambda>cx cz. replicate 256 70) E_BLOCK_GRAVEL E_BLOCK_PLANKS"

text \<open>
  The road of the example on its own, a chunk that the road crosses (water in its western
  half), the same chunk filled with lava, a chunk far away from the road, and a flat height
  map at 70.
\<close>

definition ex_PlacedRoad :: cPlacedPiece where
  "ex_PlacedRoad = ex_Placed (Some 0) ex_Road 2 8 (- 3) 1"

definition ex_Chunk :: cChunkDesc where
  "ex_Chunk =
     \<lparr> m_ChunkX = 0, m_ChunkZ = - 1,
       m_BlockTypes = (\<lambda>(x, y, z).
          if x < 8 then E_BLOCK_STATIONARY_WATER else E_BLOCK_OTHER 2) \<rparr>"

definition ex_LavaChunk :: cChunkDesc where
  "ex_LavaChunk = ex_Chunk\<lparr> m_BlockTypes := (\<lambda>pos. E_BLOCK_STATIONARY_LAVA) \<rparr>"

definition ex_FarChunk :: cChunkDesc where
  "ex_FarChunk = ex_Chunk\<lparr> m_ChunkX := 5, m_ChunkZ := 5 \<rparr>"

definition ex_HeightMap :: HeightMap where
  "ex_HeightMap = replicate 256 70"

text \<open>
  Generator objects: all plains; desert with one plains column; plains with one column of
  another biome; and one whose minimum density exceeds the maximum. \<open>ex_E_empty\<close> is the example with an
  assembly engine that places nothing.
\<close>

definition ex_G :: cVillageGen where
  "ex_G = cVillageGen_ctor 1 384 128 2 128 30 80
            (\<lambda>cx cz. replicate 256 biPlains) (\<lambda>cx cz. replicate 256 70)"

definition ex_G_mixed :: cVillageGen where
  "ex_G_mixed = ex_G\<lparr> gen_BiomeGen := (\<lambda>cx cz. replicate 255 biDesert @ [biPlains]) \<rparr>"

definition ex_G_ocean :: cVillageGen where
  "ex_G_ocean = ex_G\<lparr> gen_BiomeGen := (\<lambda>cx cz. replicate 255 biPlains @ [biOtherBiome 0]) \<rparr>"

definition ex_E_empty :: externals where
  "ex_E_empty = ex_E\<lparr> ext_PlacePieces := (\<lambda>pool seed ax ay az depth. []) \<rparr>"

definition ex_G_fixed :: cVillageGen where
  "ex_G_fixed = ex_G\<lparr> gen_MinDensity := 80, gen_MaxDensity := 30 \<rparr>"

section \<open>Theorems\<close>

text \<open>
  The equations of the loops rewrite a loop into itself; they are applied by hand, one step
  at a time.
\<close>

declare MoveAllDescendants.simps [simp del] MoveAllDescendants_for.simps [simp del]
declare DrawRoad_for_x.simps [simp del] DrawRoad_for_z.simps [simp del]
declare AddRoadConnectors.simps [simp del] AddBuildingConnectors.simps [simp del]
declare AddRoadPieces.simps [simp del]
declare connector_driven.simps [simp del] top_child.simps [simp del]

subsection \<open>Branch limiting in the style pool\<close>

text \<open>
  C1. For a placed piece of height 1 (a road) at generation depth greater than 0 and an
  existing connector of type 2, the weight function of the style pool returns 0 whatever the
  candidate piece is, and so does the weight function of a village built on a style pool,
  which is the one the assembly engine queries. At an existing connector of type 1 the rule
  never applies: at every depth and for every placed piece the style pool returns the weight
  the candidate prefab computes.
\<close>

theorem GetPieceWeight_branch_limit:
  "(vy (m_Size (m_Piece P)) = 1 \<and> 0 < m_Depth P \<and> m_Type c = 2
      \<longrightarrow> cVillagePiecePool_GetPieceWeight E P c cand = 0)
   \<and> (vy (m_Size (m_Piece P)) = 1 \<and> 0 < m_Depth P \<and> m_Type c = 2
        \<and> m_Prefabs V = cVillagePiecePool_as_pool E pool
      \<longrightarrow> cVillage_GetPieceWeight E V P c cand = 0)
   \<and> (m_Type c = 1
      \<longrightarrow> cVillagePiecePool_GetPieceWeight E P c cand = ext_PrefabWeight E cand P c)"
  by (simp add: cVillagePiecePool_GetPieceWeight_def cVillage_GetPieceWeight_def
        cVillagePiecePool_as_pool_def)

text \<open>
  The road of the example, at depth 1: a road offered at its type-2 connector gets weight 0
  from the pool and from the village, and a house offered at its type-1 connector keeps the
  weight of the house.
\<close>

theorem GetPieceWeight_branch_limit_witness:
  "cVillagePiecePool_GetPieceWeight ex_E (ex_Pieces 0 0 0 ! 1) (m_Connectors ex_Road ! 2) ex_Road = 0
   \<and> cVillage_GetPieceWeight ex_E ex_V (ex_Pieces 0 0 0 ! 1) (m_Connectors ex_Road ! 2) ex_Road = 0
   \<and> cVillagePiecePool_GetPieceWeight ex_E (ex_Pieces 0 0 0 ! 1) (m_Connectors ex_Road ! 1) ex_House
       = 50"
proof -
  have road: "vy (m_Size (m_Piece (ex_Pieces 0 0 0 ! 1))) = 1 \<and> 0 < m_Depth (ex_Pieces 0 0 0 ! 1)"
    by (simp add: ex_Pieces_def ex_Placed_def ex_Road_def)
  have t2: "m_Type (m_Connectors ex_Road ! 2) = 2" and t1: "m_Type (m_Connectors ex_Road ! 1) = 1"
    by (simp_all add: ex_Road_def)
  have w: "ext_PrefabWeight ex_E ex_House (ex_Pieces 0 0 0 ! 1) (m_Connectors ex_Road ! 1) = 50"
    by (simp add: ex_E_def ex_House_def)
  have pool: "m_Prefabs ex_V = cVillagePiecePool_as_pool ex_E (g_VillagePool ex_E g_PlainsVillage)"
    by (simp add: ex_V_def cVillage_init_def)
  from GetPieceWeight_branch_limit
         [of "ex_Pieces 0 0 0 ! 1" "m_Connectors ex_Road ! 2" ex_E ex_Road ex_V
             "g_VillagePool ex_E g_PlainsVillage"]
       GetPieceWeight_branch_limit
         [of "ex_Pieces 0 0 0 ! 1" "m_Connectors ex_Road ! 1" ex_E ex_House ex_V
             "g_VillagePool ex_E g_PlainsVillage"]
       road t2 t1 w pool
  show ?thesis by simp
qed

subsection \<open>The density check of the village\<close>

text \<open>
  C2. At an existing connector of type 1 the village takes the seeded noise hash of the
  connector's absolute position, divides it by 7 and reduces it modulo 100; it returns 0
  when that value exceeds the density, and the weight of the underlying pool otherwise. At
  every other connector type it returns the weight of the underlying pool. The reduced value
  lies in \<open>[0, 100)\<close> whenever the hash is not negative.
\<close>

theorem cVillage_GetPieceWeight_density:
  "(let pos = m_Pos (GetRotatedConnector E P c);
        h = ext_IntNoise3DInt E (m_Noise V) (vx pos) (vy pos) (vz pos);
        rnd = (h sdiv 7) smod 100
    in (m_Type c = 1 \<longrightarrow>
          cVillage_GetPieceWeight E V P c cand =
            (if rnd > m_Density V then 0 else GetPieceWeight (m_Prefabs V) P c cand))
       \<and> (m_Type c \<noteq> 1 \<longrightarrow>
          cVillage_GetPieceWeight E V P c cand = GetPieceWeight (m_Prefabs V) P c cand)
       \<and> (0 \<le> h \<longrightarrow> 0 \<le> rnd \<and> rnd < 100))"
proof -
  have range: "0 \<le> (h sdiv 7) smod 100 \<and> (h sdiv 7) smod 100 < 100" if "0 \<le> h" for h :: int
  proof -
    from that have "h sdiv 7 = h div 7"
      by (simp add: signed_divide_int_def sgn_if)
    moreover from that have "0 \<le> h div 7" by simp
    ultimately show ?thesis
      by (simp add: signed_modulo_int_def sgn_if)
  qed
  show ?thesis
    unfolding Let_def cVillage_GetPieceWeight_def using range by simp
qed

text \<open>
  In the example the road's building connector lies at \<open>(9, 8, -3)\<close>; the hash there is
  2147474367 and reduces to 52, above the density 50, so the house gets weight 0. At the
  well's connector of type 2 the village returns the pool's weight for the road.
\<close>

theorem cVillage_GetPieceWeight_density_witness:
  "cVillage_GetPieceWeight ex_E ex_V (ex_Pieces 0 0 0 ! 1) (m_Connectors ex_Road ! 1) ex_House = 0
   \<and> cVillage_GetPieceWeight ex_E ex_V (ex_Pieces 0 0 0 ! 0) (m_Connectors ex_Well ! 0) ex_Road = 100
   \<and> (let pos = m_Pos (GetRotatedConnector ex_E (ex_Pieces 0 0 0 ! 1) (m_Connectors ex_Road ! 1));
           h = ext_IntNoise3DInt ex_E (m_Noise ex_V) (vx pos) (vy pos) (vz pos)
       in h = 2147474367 \<and> (h sdiv 7) smod 100 = 52)"
proof -
  have pos: "m_Pos (GetRotatedConnector ex_E (ex_Pieces 0 0 0 ! 1) (m_Connectors ex_Road ! 1))
               = \<lparr> vx = 9, vy = 8, vz = - 3 \<rparr>"
    by (simp add: GetRotatedConnector_def ex_E_def ex_Pieces_def ex_Placed_def ex_Road_def)
  have h: "ext_IntNoise3DInt ex_E (m_Noise ex_V) 9 8 (- 3) = 2147474367"
    by (simp add: ex_E_def ex_V_def cVillage_init_def)
  have rnd: "((2147474367 :: int) sdiv 7) smod 100 = 52"
    by (simp add: signed_divide_int_def signed_modulo_int_def)
  have dens: "m_Density ex_V = 50"
    by (simp add: ex_V_def cVillage_init_def)
  have t1: "m_Type (m_Connectors ex_Road ! 1) = 1" and t2: "m_Type (m_Connectors ex_Well ! 0) = 2"
    by (simp_all add: ex_Road_def ex_Well_def)
  have pool: "GetPieceWeight (m_Prefabs ex_V) (ex_Pieces 0 0 0 ! 0) (m_Connectors ex_Well ! 0) ex_Road = 100"
    by (simp add: ex_V_def cVillage_init_def cVillagePiecePool_as_pool_def
          cVillagePiecePool_GetPieceWeight_def ex_Pieces_def ex_Placed_def ex_E_def ex_Road_def)
  from cVillage_GetPieceWeight_density
         [of ex_E "ex_Pieces 0 0 0 ! 1" "m_Connectors ex_Road ! 1" ex_V ex_House]
       cVillage_GetPieceWeight_density
         [of ex_E "ex_Pieces 0 0 0 ! 0" "m_Connectors ex_Well ! 0" ex_V ex_Road]
       pos h rnd dens t1 t2 pool
  show ?thesis by (simp add: Let_def)
qed

subsection \<open>Ground snapping and the cascade\<close>

lemma skel_nth: "skel ps = skel qs \<Longrightarrow> k < length ps \<Longrightarrow>
   m_Parent (ps ! k) = m_Parent (qs ! k) \<and> m_MoveToGround (m_Piece (ps ! k)) = m_MoveToGround (m_Piece (qs ! k))"
  unfolding skel_def
  by (metis (mono_tags, lifting) length_map nth_map prod.inject)

lemma skel_length: "skel ps = skel qs \<Longrightarrow> length ps = length qs"
  unfolding skel_def by (metis length_map)

lemma top_child_cong: "skel ps = skel qs \<Longrightarrow> top_child ps pivot k = top_child qs pivot k"
proof (induction ps pivot k rule: top_child.induct)
  case (1 ps pivot k)
  show ?case
  proof (cases "k < length ps")
    case True
    with 1 skel_nth[OF "1.prems" True] skel_length[OF "1.prems"] show ?thesis
      by (subst top_child.simps, subst (2) top_child.simps) (auto split: option.splits)
  next
    case False
    with skel_length[OF "1.prems"] show ?thesis
      by (subst top_child.simps, subst (2) top_child.simps) simp
  qed
qed

lemma driven_top: "connector_driven ps pivot k \<longleftrightarrow> top_child ps pivot k \<noteq> None"
proof (induction ps pivot k rule: top_child.induct)
  case (1 ps pivot k)
  then show ?case
    by (subst top_child.simps, subst connector_driven.simps) (auto split: option.splits)
qed

lemma top_child_props:
  "top_child ps pivot k = Some c \<Longrightarrow>
     c < length ps \<and> m_Parent (ps ! c) = Some pivot \<and> \<not> m_MoveToGround (m_Piece (ps ! c))
     \<and> pivot < c \<and> c \<le> k \<and> k < length ps"
proof (induction ps pivot k rule: top_child.induct)
  case (1 ps pivot k)
  from "1.prems" have k: "k < length ps" "\<not> m_MoveToGround (m_Piece (ps ! k))"
    by (subst (asm) top_child.simps, simp split: if_splits)+
  from "1.prems" k obtain j where j: "m_Parent (ps ! k) = Some j" "j < k"
    by (subst (asm) top_child.simps) (auto split: option.splits if_splits)
  show ?case
  proof (cases "j = pivot")
    case True
    with "1.prems" k j have "c = k"
      by (subst (asm) top_child.simps) simp
    with k j True show ?thesis by simp
  next
    case False
    with "1.prems" k j have "top_child ps pivot j = Some c"
      by (subst (asm) top_child.simps) simp
    from "1.IH" [OF conjI [OF k] j False this] j k show ?thesis by simp
  qed
qed

lemma top_child_self:
  "i < length ps \<Longrightarrow> m_Parent (ps ! i) = Some pivot \<Longrightarrow> \<not> m_MoveToGround (m_Piece (ps ! i))
   \<Longrightarrow> pivot < i \<Longrightarrow> top_child ps pivot i = Some i"
  by (subst top_child.simps) simp

lemma top_child_via:
  assumes i: "i < length ps" "m_Parent (ps ! i) = Some pivot"
    "\<not> m_MoveToGround (m_Piece (ps ! i))" "pivot < i"
  shows "top_child ps pivot k = Some i \<longleftrightarrow> k = i \<or> top_child ps i k \<noteq> None"
proof (induction k rule: less_induct)
  case (less k)
  show ?case
  proof (cases "k = i")
    case True
    with i show ?thesis by (simp add: top_child_self)
  next
    case ki: False
    show ?thesis
    proof (cases "k < length ps \<and> \<not> m_MoveToGround (m_Piece (ps ! k))")
      case False
      then show ?thesis using ki
        by (subst top_child.simps, subst (2) top_child.simps) auto
    next
      case k: True
      show ?thesis
      proof (cases "m_Parent (ps ! k)")
        case None
        with k ki show ?thesis
          by (subst top_child.simps, subst (2) top_child.simps) auto
      next
        case (Some j)
        show ?thesis
        proof (cases "j < k")
          case False
          with k ki Some show ?thesis
            by (subst top_child.simps, subst (2) top_child.simps) auto
        next
          case jk: True
          have unfold1: "top_child ps pivot k = (if j = pivot then Some k else top_child ps pivot j)"
            using k Some jk by (subst top_child.simps) simp
          have unfold2: "top_child ps i k = (if j = i then Some k else top_child ps i j)"
            using k Some jk by (subst top_child.simps) simp
          show ?thesis
          proof (cases "j = pivot")
            case True
            have "top_child ps i j = None"
            proof (rule ccontr)
              assume "top_child ps i j \<noteq> None"
              then obtain c where "top_child ps i j = Some c" by blast
              from top_child_props [OF this] True i show False by simp
            qed
            with True unfold1 unfold2 ki i show ?thesis by auto
          next
            case jp: False
            show ?thesis
            proof (cases "j = i")
              case True
              with unfold1 unfold2 jp i show ?thesis by (simp add: top_child_self)
            next
              case False
              with unfold1 unfold2 jp less.IH [OF jk] ki show ?thesis by simp
            qed
          qed
        qed
      qed
    qed
  qed
qed


lemma skel_update: "skel (ps[i := MoveToGroundBy (ps ! i) d]) = skel ps"
proof (cases "i < length ps")
  case True
  then have "(map (\<lambda>p. (m_Parent p, m_MoveToGround (m_Piece p))) ps)
               [i := (m_Parent (ps ! i), m_MoveToGround (m_Piece (ps ! i)))]
             = map (\<lambda>p. (m_Parent p, m_MoveToGround (m_Piece p))) ps"
    by (simp add: list_update_same_conv)
  then show ?thesis
    by (simp add: skel_def MoveToGroundBy_def map_update)
next
  case False
  then have "ps[i := MoveToGroundBy (ps ! i) d] = ps" by (simp add: list_update_beyond)
  then show ?thesis by (simp only:)
qed

lemma MoveAllDescendants_skel:
  "skel (MoveAllDescendants ps pivot d) = skel ps"
  "skel (MoveAllDescendants_for ps' num pivot' d' i) = skel ps'"
proof (induction ps pivot d and ps' num pivot' d' i
         rule: MoveAllDescendants_MoveAllDescendants_for.induct)
  case (1 ps pivot d)
  then show ?case by (subst MoveAllDescendants.simps) simp
next
  case (2 ps num pivot d i)
  then show ?case
    by (subst MoveAllDescendants_for.simps) (simp add: skel_update)
qed

lemma MoveAllDescendants_length:
  "length (MoveAllDescendants ps pivot d) = length ps"
  using MoveAllDescendants_skel(1) [of ps pivot d] by (rule skel_length)

lemma cascade_main:
  "\<forall>k<length ps. MoveAllDescendants ps pivot d ! k =
      (if top_child ps pivot k \<noteq> None then MoveToGroundBy (ps ! k) d else ps ! k)"
  "num = length ps' \<longrightarrow> pivot' < i \<longrightarrow>
     (\<forall>k<length ps'. MoveAllDescendants_for ps' num pivot' d' i ! k =
        (if (\<exists>c\<ge>i. top_child ps' pivot' k = Some c) then MoveToGroundBy (ps' ! k) d'
         else ps' ! k))"
proof (induction ps pivot d and ps' num pivot' d' i
         rule: MoveAllDescendants_MoveAllDescendants_for.induct)
  case (1 ps pivot d)
  have "(\<exists>c\<ge>pivot + 1. top_child ps pivot k = Some c) \<longleftrightarrow> top_child ps pivot k \<noteq> None" for k
    using top_child_props [of ps pivot k] by fastforce
  with 1 show ?case
    by (subst MoveAllDescendants.simps) simp
next
  case (2 ps num pivot d i)
  show ?case
  proof (intro impI allI)
    fix k
    assume num: "num = length ps" and pi: "pivot < i" and k: "k < length ps"
    let ?from = "\<lambda>i. \<exists>c\<ge>i. top_child ps pivot k = Some c"
    show "MoveAllDescendants_for ps num pivot d i ! k =
            (if ?from i then MoveToGroundBy (ps ! k) d else ps ! k)"
    proof (cases "i < num")
      case False
      with num top_child_props [of ps pivot k] have "\<not> ?from i" by fastforce
      with False show ?thesis by (subst MoveAllDescendants_for.simps) auto
    next
      case inum: True
      show ?thesis
      proof (cases "m_Parent (ps ! i) = Some pivot \<and> \<not> m_MoveToGround (m_Piece (ps ! i))")
        case False
        have "top_child ps pivot k \<noteq> Some i"
          using top_child_props [of ps pivot k i] False by blast
        then have "?from i \<longleftrightarrow> ?from (i + 1)"
          by (metis Suc_eq_plus1 Suc_leI le_neq_implies_less Suc_leD)
        moreover from "2.IH"(3) [OF inum False] num pi k
        have "MoveAllDescendants_for ps num pivot d (i + 1) ! k =
                (if ?from (i + 1) then MoveToGroundBy (ps ! k) d else ps ! k)"
          by simp
        moreover have "MoveAllDescendants_for ps num pivot d i =
                         MoveAllDescendants_for ps num pivot d (i + 1)"
          by (subst MoveAllDescendants_for.simps) (simp only: inum False if_True if_False)
        ultimately show ?thesis by (simp only:)
      next
        case cond: True
        let ?ps1 = "ps[i := MoveToGroundBy (ps ! i) d]"
        let ?X = "MoveAllDescendants ?ps1 i d"
        have sk1: "skel ?ps1 = skel ps" by (rule skel_update)
        have skX: "skel ?X = skel ps" using MoveAllDescendants_skel(1) sk1 by simp
        have lenX: "length ?X = length ps" using skX by (rule skel_length)
        have tc1: "top_child ?ps1 i k = top_child ps i k" using sk1 by (rule top_child_cong)
        have tcX: "top_child ?X pivot k = top_child ps pivot k" using skX by (rule top_child_cong)
        from "2.IH"(1) [OF inum cond] k
        have X: "?X ! k = (if top_child ps i k \<noteq> None then MoveToGroundBy (?ps1 ! k) d else ?ps1 ! k)"
          by (simp add: tc1)
        from "2.IH"(2) [OF inum cond] num pi k lenX
        have R: "MoveAllDescendants_for ?X num pivot d (i + 1) ! k =
                (if ?from (i + 1) then MoveToGroundBy (?X ! k) d else ?X ! k)"
          by (simp add: tcX)
        have res: "MoveAllDescendants_for ps num pivot d i = MoveAllDescendants_for ?X num pivot d (i + 1)"
          using inum cond by (subst MoveAllDescendants_for.simps) simp
        from inum num cond pi
        have via: "top_child ps pivot k = Some i \<longleftrightarrow> k = i \<or> top_child ps i k \<noteq> None"
          by (intro top_child_via) simp_all
        have self: "top_child ps i i = None"
        proof (rule ccontr)
          assume "top_child ps i i \<noteq> None"
          then obtain c where "top_child ps i i = Some c" by blast
          from top_child_props [OF this] show False by auto
        qed
        consider (later) "?from (i + 1)" | (here) "top_child ps pivot k = Some i"
          | (none) "\<not> ?from i"
          by (metis Suc_eq_plus1 Suc_leI le_neq_implies_less)
        then show ?thesis
        proof cases
          case later
          then have ne: "top_child ps pivot k \<noteq> Some i" by auto
          with via have "k \<noteq> i" "top_child ps i k = None" by auto
          with X have Xk: "?X ! k = ps ! k" by simp
          from later have fi: "?from i" by (meson add_leD1)
          from R later have "MoveAllDescendants_for ?X num pivot d (i + 1) ! k =
                               MoveToGroundBy (?X ! k) d"
            by (simp only: if_True)
          with Xk fi res show ?thesis by (simp only: if_True)
        next
          case here
          then have nl: "\<not> ?from (i + 1)" by simp
          from here have fi: "?from i" by simp
          have Xk: "?X ! k = MoveToGroundBy (ps ! k) d"
          proof (cases "k = i")
            case True
            with X self k show ?thesis by simp
          next
            case False
            with via here have "top_child ps i k \<noteq> None" by simp
            with X False show ?thesis by simp
          qed
          from R nl have "MoveAllDescendants_for ?X num pivot d (i + 1) ! k = ?X ! k"
            by (simp only: if_False)
          with Xk fi res show ?thesis by (simp only: if_True)
        next
          case none
          then have ne: "top_child ps pivot k \<noteq> Some i" by auto
          with via have "k \<noteq> i" "top_child ps i k = None" by auto
          with X have Xk: "?X ! k = ps ! k" by simp
          from none have nl: "\<not> ?from (i + 1)" by (meson add_leD1)
          from R nl have "MoveAllDescendants_for ?X num pivot d (i + 1) ! k = ?X ! k"
            by (simp only: if_False)
          with Xk none res show ?thesis by (simp only: if_False)
        qed
      qed
    qed
  qed
qed

lemma connector_driven_hangs: "connector_driven ps pivot k \<Longrightarrow> hangs_below ps pivot k"
proof (induction ps pivot k rule: connector_driven.induct)
  case (1 ps pivot k)
  from "1.prems" have k: "k < length ps" "\<not> m_MoveToGround (m_Piece (ps ! k))"
    by (subst (asm) connector_driven.simps, simp split: if_splits)+
  from "1.prems" k obtain j where j: "m_Parent (ps ! k) = Some j" "j < k"
    and d: "j = pivot \<or> connector_driven ps pivot j"
    by (subst (asm) connector_driven.simps) (auto split: option.splits if_splits)
  show ?case
  proof (cases "j = pivot")
    case True
    with k j show ?thesis by (auto intro: hangs_below.child)
  next
    case False
    with d have "connector_driven ps pivot j" by simp
    from "1.IH" [OF conjI [OF k] j(1) j(2) this] k j show ?thesis
      by (auto intro: hangs_below.below)
  qed
qed

lemma hangs_connector_driven:
  assumes "parents_first ps"
  shows "hangs_below ps pivot k \<Longrightarrow> connector_driven ps pivot k"
proof (induction rule: hangs_below.induct)
  case (child k)
  with assms have "pivot < k" by (simp add: parents_first_def)
  with child show ?case by (subst connector_driven.simps) simp
next
  case (below k j)
  with assms have "j < k" by (simp add: parents_first_def)
  with below show ?case by (subst connector_driven.simps) simp
qed

lemma connector_driven_iff_hangs:
  "parents_first ps \<Longrightarrow> connector_driven ps pivot k \<longleftrightarrow> hangs_below ps pivot k"
  using connector_driven_hangs hangs_connector_driven by blast

lemma ex_parents_first: "parents_first (ex_Pieces 0 0 0)"
  unfolding parents_first_def
proof (intro allI impI)
  fix k j
  assume "k < length (ex_Pieces 0 0 0)" and p: "m_Parent (ex_Pieces 0 0 0 ! k) = Some j"
  then have "k = 0 \<or> k = 1 \<or> k = 2 \<or> k = 3 \<or> k = 4"
    by (auto simp: ex_Pieces_def)
  with p show "j < k"
    by (auto simp: ex_Pieces_def ex_Placed_def)
qed

lemma GetRotatedConnectorAt_moved:
  "vy (m_Pos (GetRotatedConnectorAt E (MoveToGroundBy p dy) n))
     = vy (m_Pos (GetRotatedConnectorAt E p n)) + dy"
  by (simp add: GetRotatedConnectorAt_def GetRotatedConnector_def MoveToGroundBy_def
        split: prod.splits)

lemma PlacePieceOnGround_eq:
  assumes "ext_AbsoluteToRelative E (vx (m_Pos (GetRotatedConnectorAt E p 0)))
             (vz (m_Pos (GetRotatedConnectorAt E p 0))) = (BlockX, BlockZ, ChunkX, ChunkZ)"
  shows "PlacePieceOnGround E V p =
           MoveToGroundBy p (ext_GetHeight E (m_HeightGen V ChunkX ChunkZ) BlockX BlockZ
                               - vy (m_Pos (GetRotatedConnectorAt E p 0)) + 1)"
  using assms by (simp add: PlacePieceOnGround_def Let_def)

text \<open>
  C4. Let \<open>ps\<close> be the pieces the assembly engine returns to the constructor, not empty,
  with a ground-anchored root piece \<open>ps ! 0\<close>. Let \<open>TerrainHeight\<close> be the height that the
  height map of the chunk under the root's first connector gives at that connector's x and z,
  and \<open>delta\<close> the terrain height minus the connector's y plus 1. Then the constructed
  village has as many pieces as \<open>ps\<close>; the first connector of its root lies at
  \<open>TerrainHeight + 1\<close>; the root is the old root moved by \<open>delta\<close>; and every other piece is
  moved by the same \<open>delta\<close> exactly when it hangs below the root through a chain of pieces
  that are all not ground-anchored, and is left as it was otherwise: a ground-anchored
  descendant and everything below it stay where they were. The chain is followed along
  decreasing indices, which in a vector with every parent before its children is the chain
  of parents of the tree.
\<close>

theorem cVillage_ctor_ground_snap:
  assumes ps: "ext_PlacePieces E
                 (cVillage_as_pool E
                    (cVillage_init E seed gx gz ox oz msize dens prefabs hg rb wrb))
                 seed ox 0 oz (depth + 1) = ps"
    and ne: "ps \<noteq> []"
    and anchored: "m_MoveToGround (m_Piece (ps ! 0))"
    and rel: "ext_AbsoluteToRelative E (vx (m_Pos (GetRotatedConnectorAt E (ps ! 0) 0)))
                (vz (m_Pos (GetRotatedConnectorAt E (ps ! 0) 0))) = (BlockX, BlockZ, ChunkX, ChunkZ)"
    and th: "TerrainHeight = ext_GetHeight E (hg ChunkX ChunkZ) BlockX BlockZ"
    and delta: "delta = TerrainHeight - vy (m_Pos (GetRotatedConnectorAt E (ps ! 0) 0)) + 1"
    and V: "V = cVillage_ctor E seed gx gz ox oz depth msize dens prefabs hg rb wrb"
  shows "length (m_Pieces V) = length ps
     \<and> vy (m_Pos (GetRotatedConnectorAt E (m_Pieces V ! 0) 0)) = TerrainHeight + 1
     \<and> m_Pieces V ! 0 = MoveToGroundBy (ps ! 0) delta
     \<and> (\<forall>k. 0 < k \<and> k < length ps \<longrightarrow>
           m_Pieces V ! k =
             (if connector_driven ps 0 k then MoveToGroundBy (ps ! k) delta else ps ! k))
     \<and> (parents_first ps \<longrightarrow> (\<forall>k. connector_driven ps 0 k \<longleftrightarrow> hangs_below ps 0 k))"
proof -
  let ?V0 = "cVillage_init E seed gx gz ox oz msize dens prefabs hg rb wrb"
  have hg: "m_HeightGen ?V0 = hg" by (simp add: cVillage_init_def)
  have root: "PlacePieceOnGround E ?V0 (ps ! 0) = MoveToGroundBy (ps ! 0) delta"
    using PlacePieceOnGround_eq [OF rel, of ?V0] by (simp add: hg th delta)
  let ?ps1 = "ps[0 := MoveToGroundBy (ps ! 0) delta]"
  have diff: "vy (m_Coords (?ps1 ! 0)) - vy (m_Coords (ps ! 0)) = delta"
    using ne by (simp add: MoveToGroundBy_def)
  have pieces: "m_Pieces V = MoveAllDescendants ?ps1 0 delta"
    unfolding V cVillage_ctor_def Let_def ps
    using ne anchored root diff by simp
  have sk: "skel ?ps1 = skel ps" by (rule skel_update)
  have len1: "length ?ps1 = length ps" by simp
  have nth: "MoveAllDescendants ?ps1 0 delta ! k =
               (if connector_driven ps 0 k then MoveToGroundBy (?ps1 ! k) delta else ?ps1 ! k)"
    if "k < length ps" for k
    using cascade_main(1) [of ?ps1 0 delta] that
    by (simp add: driven_top top_child_cong [OF sk])
  have root_not: "\<not> connector_driven ps 0 0"
    by (subst connector_driven.simps) (simp split: option.splits)
  have zero: "m_Pieces V ! 0 = MoveToGroundBy (ps ! 0) delta"
    using nth [of 0] ne root_not by (simp add: pieces)
  have "length (m_Pieces V) = length ps"
    by (simp add: pieces MoveAllDescendants_length)
  moreover have "vy (m_Pos (GetRotatedConnectorAt E (m_Pieces V ! 0) 0)) = TerrainHeight + 1"
    by (simp add: zero GetRotatedConnectorAt_moved delta)
  moreover note zero
  moreover have "\<forall>k. 0 < k \<and> k < length ps \<longrightarrow>
           m_Pieces V ! k =
             (if connector_driven ps 0 k then MoveToGroundBy (ps ! k) delta else ps ! k)"
    using nth by (simp add: pieces)
  moreover have "parents_first ps \<longrightarrow> (\<forall>k. connector_driven ps 0 k \<longleftrightarrow> hangs_below ps 0 k)"
    using connector_driven_iff_hangs by blast
  ultimately show ?thesis by simp
qed


text \<open>
  The example: the connector of the well is at height 8 and the terrain is at 70, so
  everything connector-driven moves by 63. The road and the house on it move; the farm is
  ground-anchored and stays, and so does the house that hangs on the farm.
\<close>

theorem cVillage_ctor_ground_snap_witness:
  "length (m_Pieces ex_Village) = 5
   \<and> vy (m_Pos (GetRotatedConnectorAt ex_E (m_Pieces ex_Village ! 0) 0)) = 71
   \<and> m_Pieces ex_Village ! 0 = MoveToGroundBy (ex_Pieces 0 0 0 ! 0) 63
   \<and> m_Pieces ex_Village ! 1 = MoveToGroundBy (ex_Pieces 0 0 0 ! 1) 63
   \<and> m_Pieces ex_Village ! 2 = MoveToGroundBy (ex_Pieces 0 0 0 ! 2) 63
   \<and> m_Pieces ex_Village ! 3 = ex_Pieces 0 0 0 ! 3
   \<and> m_Pieces ex_Village ! 4 = ex_Pieces 0 0 0 ! 4
   \<and> hangs_below (ex_Pieces 0 0 0) 0 2 \<and> \<not> hangs_below (ex_Pieces 0 0 0) 0 4"
proof -
  let ?ps = "ex_Pieces 0 0 0"
  let ?hg = "\<lambda>(cx :: int) (cz :: int). replicate 256 (70 :: int)"
  let ?pool = "cVillagePiecePool_as_pool ex_E (g_VillagePool ex_E g_PlainsVillage)"
  have ps: "ext_PlacePieces ex_E
              (cVillage_as_pool ex_E
                 (cVillage_init ex_E 1 0 0 0 0 80 50 ?pool ?hg E_BLOCK_GRAVEL E_BLOCK_PLANKS))
              1 0 0 0 (2 + 1) = ?ps"
    by (simp add: ex_E_def)
  have len: "length ?ps = 5" and ne: "?ps \<noteq> []"
    by (simp_all add: ex_Pieces_def)
  have anchored: "m_MoveToGround (m_Piece (?ps ! 0))"
    by (simp add: ex_Pieces_def ex_Placed_def ex_Well_def)
  have conn: "m_Pos (GetRotatedConnectorAt ex_E (?ps ! 0) 0) = \<lparr> vx = 2, vy = 8, vz = 0 \<rparr>"
    by (simp add: GetRotatedConnectorAt_def GetRotatedConnector_def ex_E_def ex_Pieces_def
          ex_Placed_def ex_Well_def)
  have rel: "ext_AbsoluteToRelative ex_E (vx (m_Pos (GetRotatedConnectorAt ex_E (?ps ! 0) 0)))
               (vz (m_Pos (GetRotatedConnectorAt ex_E (?ps ! 0) 0))) = (2, 0, 0, 0)"
    by (simp add: conn) (simp add: ex_E_def)
  have th: "(70 :: int) = ext_GetHeight ex_E (?hg 0 0) 2 0"
    by (simp add: ex_E_def)
  have delta: "(63 :: int) = 70 - vy (m_Pos (GetRotatedConnectorAt ex_E (?ps ! 0) 0)) + 1"
    by (simp add: conn)
  have d1: "connector_driven ?ps 0 1"
    by (subst connector_driven.simps)
       (simp add: ex_Pieces_def ex_Placed_def ex_Road_def)
  have d2: "connector_driven ?ps 0 2"
    by (subst connector_driven.simps, subst connector_driven.simps)
       (simp add: ex_Pieces_def ex_Placed_def ex_Road_def ex_House_def)
  have d3: "\<not> connector_driven ?ps 0 3"
    by (subst connector_driven.simps)
       (simp add: ex_Pieces_def ex_Placed_def ex_Farm_def ex_House_def)
  have d4: "\<not> connector_driven ?ps 0 4"
    by (subst connector_driven.simps, subst connector_driven.simps)
       (simp add: ex_Pieces_def ex_Placed_def ex_Farm_def ex_House_def)
  note main = cVillage_ctor_ground_snap [OF ps ne anchored rel th delta ex_Village_def]
  from main have l: "length (m_Pieces ex_Village) = length ?ps"
    and c: "vy (m_Pos (GetRotatedConnectorAt ex_E (m_Pieces ex_Village ! 0) 0)) = 70 + 1"
    and r: "m_Pieces ex_Village ! 0 = MoveToGroundBy (?ps ! 0) 63"
    and rest: "\<And>k. 0 < k \<and> k < length ?ps \<Longrightarrow>
                 m_Pieces ex_Village ! k =
                   (if connector_driven ?ps 0 k then MoveToGroundBy (?ps ! k) 63 else ?ps ! k)"
    and tree: "\<And>k. parents_first ?ps \<Longrightarrow> connector_driven ?ps 0 k \<longleftrightarrow> hangs_below ?ps 0 k"
    by blast+
  from tree [OF ex_parents_first] d2 d4
  have h: "hangs_below ?ps 0 2 \<and> \<not> hangs_below ?ps 0 4" by blast
  from rest [of 1] d1 len
  have k1: "m_Pieces ex_Village ! 1 = MoveToGroundBy (?ps ! 1) 63" by simp
  from rest [of 2] d2 len
  have k2: "m_Pieces ex_Village ! 2 = MoveToGroundBy (?ps ! 2) 63" by simp
  from rest [of 3] d3 len
  have k3: "m_Pieces ex_Village ! 3 = ?ps ! 3" by simp
  from rest [of 4] d4 len
  have k4: "m_Pieces ex_Village ! 4 = ?ps ! 4" by simp
  from l len c r k1 k2 k3 k4 h show ?thesis by (simp only: one_add_one numeral_plus_one
        add_numeral_left semiring_norm simp_thms)
qed

subsection \<open>Drawing a road\<close>

lemma BlockTypes_update_cong:
  "(\<And>a b c. f (a, b, c) = g (a, b, c)) \<Longrightarrow>
     C\<lparr> m_BlockTypes := f \<rparr> = (C :: cChunkDesc)\<lparr> m_BlockTypes := g \<rparr>"
  by (simp add: fun_eq_iff)

lemma BlockTypes_update_twice:
  "C\<lparr> m_BlockTypes := f \<rparr>\<lparr> m_BlockTypes := g \<rparr> = (C :: cChunkDesc)\<lparr> m_BlockTypes := g \<rparr>"
  by simp

lemma DrawRoad_for_x_blocks:
  "DrawRoad_for_x E V hm z MaxX x C =
     C\<lparr> m_BlockTypes := (\<lambda>(a, b, c).
          if c = z \<and> x \<le> a \<and> a \<le> MaxX \<and> b = ext_GetHeight E hm a z
          then paved E V C (a, b, c) else m_BlockTypes C (a, b, c)) \<rparr>"
proof (induction E V hm z MaxX x C rule: DrawRoad_for_x.induct)
  case (1 E V hm z MaxX x C)
  show ?case
  proof (cases "x \<le> MaxX")
    case False
    then have "(\<lambda>(a, b, c).
          if c = z \<and> x \<le> a \<and> a \<le> MaxX \<and> b = ext_GetHeight E hm a z
          then paved E V C (a, b, c) else m_BlockTypes C (a, b, c)) = m_BlockTypes C"
      by (auto simp: fun_eq_iff)
    with False show ?thesis
      by (subst DrawRoad_for_x.simps) simp
  next
    case True
    let ?h = "ext_GetHeight E hm x z"
    let ?C' = "SetBlockType C x ?h z (paved E V C (x, ?h, z))"
    have eq: "(if ext_IsBlockWater E (GetBlockType C x ?h z)
               then SetBlockType C x ?h z (m_WaterRoadBlock V)
               else SetBlockType C x ?h z (m_RoadBlock V)) = ?C'"
      by (simp add: paved_def GetBlockType_def)
    have step: "DrawRoad_for_x E V hm z MaxX x C = DrawRoad_for_x E V hm z MaxX (x + 1) ?C'"
      by (subst DrawRoad_for_x.simps) (simp only: True if_True eq)
    note IH = "1.IH" [OF True, unfolded eq]
    have first: "x \<le> a \<longleftrightarrow> a = x \<or> x + 1 \<le> a" for a
      by arith
    show ?thesis
      unfolding step IH
      unfolding SetBlockType_def BlockTypes_update_twice
      using True
      by (intro BlockTypes_update_cong) (auto simp: paved_def first)
  qed
qed

lemma DrawRoad_for_z_blocks:
  "DrawRoad_for_z E V hm MinX MaxX MaxZ z C =
     C\<lparr> m_BlockTypes := (\<lambda>(a, b, c).
          if z \<le> c \<and> c \<le> MaxZ \<and> MinX \<le> a \<and> a \<le> MaxX \<and> b = ext_GetHeight E hm a c
          then paved E V C (a, b, c) else m_BlockTypes C (a, b, c)) \<rparr>"
proof (induction E V hm MinX MaxX MaxZ z C rule: DrawRoad_for_z.induct)
  case (1 E V hm MinX MaxX MaxZ z C)
  show ?case
  proof (cases "z \<le> MaxZ")
    case False
    then have "(\<lambda>(a, b, c).
          if z \<le> c \<and> c \<le> MaxZ \<and> MinX \<le> a \<and> a \<le> MaxX \<and> b = ext_GetHeight E hm a c
          then paved E V C (a, b, c) else m_BlockTypes C (a, b, c)) = m_BlockTypes C"
      by (auto simp: fun_eq_iff)
    with False show ?thesis
      by (subst DrawRoad_for_z.simps) simp
  next
    case True
    let ?C' = "DrawRoad_for_x E V hm z MaxX MinX C"
    have step: "DrawRoad_for_z E V hm MinX MaxX MaxZ z C =
                  DrawRoad_for_z E V hm MinX MaxX MaxZ (z + 1) ?C'"
      using True by (subst DrawRoad_for_z.simps) simp
    have first: "z \<le> c \<longleftrightarrow> c = z \<or> z + 1 \<le> c" for c
      by arith
    show ?thesis
      unfolding step "1.IH" [OF True]
      unfolding DrawRoad_for_x_blocks BlockTypes_update_twice
      using True
      by (intro BlockTypes_update_cong) (auto simp: paved_def first)
  qed
qed


lemma DrawRoad_blocks:
  "DrawRoad E V C R hm =
     C\<lparr> m_BlockTypes := (\<lambda>(a, b, c).
          if DrawRoad_MinZ E C R \<le> c \<and> c \<le> DrawRoad_MaxZ E C R
             \<and> DrawRoad_MinX E C R \<le> a \<and> a \<le> DrawRoad_MaxX E C R
             \<and> b = ext_GetHeight E hm a c
          then paved E V C (a, b, c) else m_BlockTypes C (a, b, c)) \<rparr>"
  by (simp add: DrawRoad_def DrawRoad_for_z_blocks)

lemma ex_bounds:
  "DrawRoad_MinX ex_E ex_Chunk ex_PlacedRoad = 2"
  "DrawRoad_MaxX ex_E ex_Chunk ex_PlacedRoad = 15"
  "DrawRoad_MinZ ex_E ex_Chunk ex_PlacedRoad = 13"
  "DrawRoad_MaxZ ex_E ex_Chunk ex_PlacedRoad = 15"
  by (simp_all add: DrawRoad_MinX_def DrawRoad_MaxX_def DrawRoad_MinZ_def DrawRoad_MaxZ_def
        ex_E_def ex_Chunk_def ex_PlacedRoad_def ex_Placed_def ex_Road_def)

lemma ex_heights:
  "ext_GetHeight ex_E ex_HeightMap 3 13 = 70"
  "ext_GetHeight ex_E ex_HeightMap 10 14 = 70"
  by (simp_all add: ex_E_def ex_HeightMap_def)

lemma ex_lava_bounds:
  "DrawRoad_MinX ex_E ex_LavaChunk ex_PlacedRoad = 2"
  "DrawRoad_MaxX ex_E ex_LavaChunk ex_PlacedRoad = 15"
  "DrawRoad_MinZ ex_E ex_LavaChunk ex_PlacedRoad = 13"
  "DrawRoad_MaxZ ex_E ex_LavaChunk ex_PlacedRoad = 15"
  by (simp_all add: DrawRoad_MinX_def DrawRoad_MaxX_def DrawRoad_MinZ_def DrawRoad_MaxZ_def
        ex_E_def ex_LavaChunk_def ex_Chunk_def ex_PlacedRoad_def ex_Placed_def ex_Road_def)

text \<open>
  C7, as stated, fails. The claim has every column of the clipped footprint whose surface
  block is a liquid paved with the water-crossing material. \<open>DrawRoad\<close> tests the block
  with \<open>IsBlockWater\<close>, and lava is a liquid that is not water: in the example, where the road
  crosses a chunk of lava, column \<open>(3, 13)\<close> lies in the clipped footprint, its surface block
  at height 70 is a liquid, and after \<open>DrawRoad\<close> it holds gravel, the default paving
  material, and not planks, the water-crossing material.
\<close>

theorem DrawRoad_lava_counterexample:
  "DrawRoad_MinX ex_E ex_LavaChunk ex_PlacedRoad \<le> 3
   \<and> 3 \<le> DrawRoad_MaxX ex_E ex_LavaChunk ex_PlacedRoad
   \<and> DrawRoad_MinZ ex_E ex_LavaChunk ex_PlacedRoad \<le> 13
   \<and> 13 \<le> DrawRoad_MaxZ ex_E ex_LavaChunk ex_PlacedRoad
   \<and> ext_GetHeight ex_E ex_HeightMap 3 13 = 70
   \<and> IsBlockLiquid (GetBlockType ex_LavaChunk 3 70 13)
   \<and> m_RoadBlock ex_V = E_BLOCK_GRAVEL
   \<and> m_WaterRoadBlock ex_V = E_BLOCK_PLANKS
   \<and> GetBlockType (DrawRoad ex_E ex_V ex_LavaChunk ex_PlacedRoad ex_HeightMap) 3 70 13
       = E_BLOCK_GRAVEL"
proof -
  have mats: "m_WaterRoadBlock ex_V = E_BLOCK_PLANKS" "m_RoadBlock ex_V = E_BLOCK_GRAVEL"
    by (simp_all add: ex_V_def cVillage_init_def)
  have before: "GetBlockType ex_LavaChunk 3 70 13 = E_BLOCK_STATIONARY_LAVA"
    by (simp add: GetBlockType_def ex_LavaChunk_def)
  have liquid: "IsBlockLiquid E_BLOCK_STATIONARY_LAVA"
    by (simp add: IsBlockLiquid_def)
  have dry: "\<not> ext_IsBlockWater ex_E E_BLOCK_STATIONARY_LAVA"
    by (simp add: ex_E_def)
  have after: "GetBlockType (DrawRoad ex_E ex_V ex_LavaChunk ex_PlacedRoad ex_HeightMap) 3 70 13
                 = E_BLOCK_GRAVEL"
    using before dry mats
    by (simp add: DrawRoad_blocks ex_lava_bounds ex_heights GetBlockType_def paved_def)
  from mats before liquid after show ?thesis
    by (simp add: ex_lava_bounds ex_heights)
qed

text \<open>
  C7, amended. For every column \<open>(x, z)\<close> of the road's footprint clipped to the chunk, the
  block at the column's surface height is, after \<open>DrawRoad\<close>, the water-crossing material if
  the block that was there before is water, that is, a block that \<open>IsBlockWater\<close> accepts,
  and the paving material otherwise, also when that block is a liquid other than water. The
  two materials being different, the column carries the water-crossing material if and only
  if the block before was water.
\<close>

theorem DrawRoad_paves_columns:
  "\<forall>x z. DrawRoad_MinX E a_Chunk a_Road \<le> x \<and> x \<le> DrawRoad_MaxX E a_Chunk a_Road
        \<and> DrawRoad_MinZ E a_Chunk a_Road \<le> z \<and> z \<le> DrawRoad_MaxZ E a_Chunk a_Road \<longrightarrow>
     (let y = ext_GetHeight E a_HeightMap x z;
          before = GetBlockType a_Chunk x y z;
          after = GetBlockType (DrawRoad E V a_Chunk a_Road a_HeightMap) x y z
      in after = (if ext_IsBlockWater E before then m_WaterRoadBlock V else m_RoadBlock V)
         \<and> (m_WaterRoadBlock V \<noteq> m_RoadBlock V \<longrightarrow>
              (after = m_WaterRoadBlock V \<longleftrightarrow> ext_IsBlockWater E before)))"
  by (simp add: DrawRoad_blocks GetBlockType_def paved_def Let_def)

text \<open>
  In the example the road crosses the chunk in the columns 2 to 15 of the rows 13 to 15;
  column \<open>(3, 13)\<close> was water and becomes planks, column \<open>(10, 14)\<close> was not and becomes gravel.
\<close>

theorem DrawRoad_paves_columns_witness:
  "GetBlockType (DrawRoad ex_E ex_V ex_Chunk ex_PlacedRoad ex_HeightMap) 3 70 13
     = E_BLOCK_PLANKS
   \<and> GetBlockType (DrawRoad ex_E ex_V ex_Chunk ex_PlacedRoad ex_HeightMap) 10 70 14
     = E_BLOCK_GRAVEL"
proof -
  have mats: "m_WaterRoadBlock ex_V = E_BLOCK_PLANKS" "m_RoadBlock ex_V = E_BLOCK_GRAVEL"
    by (simp_all add: ex_V_def cVillage_init_def)
  have before: "ext_IsBlockWater ex_E (GetBlockType ex_Chunk 3 70 13)"
    "\<not> ext_IsBlockWater ex_E (GetBlockType ex_Chunk 10 70 14)"
    by (simp_all add: ex_E_def GetBlockType_def ex_Chunk_def)
  note cols = DrawRoad_paves_columns
               [of ex_E ex_Chunk ex_PlacedRoad ex_HeightMap ex_V, unfolded ex_bounds]
  from cols [rule_format, of 3 13] cols [rule_format, of 10 14] mats before
  show ?thesis by (simp add: Let_def ex_heights)
qed

text \<open>
  C10. \<open>DrawRoad\<close> changes a block only at chunk-local coordinates \<open>x\<close> and \<open>z\<close> between 0 and
  the chunk width minus 1, inside the clipped footprint and at the surface height of the
  column; and when the clipped range is empty in \<open>x\<close> or in \<open>z\<close>, the chunk is returned
  as it was.
\<close>

theorem DrawRoad_stays_in_chunk:
  "(\<forall>x y z. GetBlockType (DrawRoad E V a_Chunk a_Road a_HeightMap) x y z \<noteq> GetBlockType a_Chunk x y z
       \<longrightarrow> 0 \<le> x \<and> x \<le> ext_Width E - 1 \<and> 0 \<le> z \<and> z \<le> ext_Width E - 1
           \<and> DrawRoad_MinX E a_Chunk a_Road \<le> x \<and> x \<le> DrawRoad_MaxX E a_Chunk a_Road
           \<and> DrawRoad_MinZ E a_Chunk a_Road \<le> z \<and> z \<le> DrawRoad_MaxZ E a_Chunk a_Road
           \<and> y = ext_GetHeight E a_HeightMap x z)
   \<and> (DrawRoad_MaxX E a_Chunk a_Road < DrawRoad_MinX E a_Chunk a_Road
        \<or> DrawRoad_MaxZ E a_Chunk a_Road < DrawRoad_MinZ E a_Chunk a_Road
      \<longrightarrow> DrawRoad E V a_Chunk a_Road a_HeightMap = a_Chunk)"
proof -
  have bounds: "0 \<le> DrawRoad_MinX E a_Chunk a_Road" "DrawRoad_MaxX E a_Chunk a_Road \<le> ext_Width E - 1"
    "0 \<le> DrawRoad_MinZ E a_Chunk a_Road" "DrawRoad_MaxZ E a_Chunk a_Road \<le> ext_Width E - 1"
    by (simp_all add: DrawRoad_MinX_def DrawRoad_MaxX_def DrawRoad_MinZ_def DrawRoad_MaxZ_def)
  have part1: "0 \<le> x \<and> x \<le> ext_Width E - 1 \<and> 0 \<le> z \<and> z \<le> ext_Width E - 1
           \<and> DrawRoad_MinX E a_Chunk a_Road \<le> x \<and> x \<le> DrawRoad_MaxX E a_Chunk a_Road
           \<and> DrawRoad_MinZ E a_Chunk a_Road \<le> z \<and> z \<le> DrawRoad_MaxZ E a_Chunk a_Road
           \<and> y = ext_GetHeight E a_HeightMap x z"
    if "GetBlockType (DrawRoad E V a_Chunk a_Road a_HeightMap) x y z \<noteq> GetBlockType a_Chunk x y z"
    for x y z
    using that bounds
    by (auto simp: DrawRoad_blocks GetBlockType_def split: if_splits)
  have part2: "DrawRoad E V a_Chunk a_Road a_HeightMap = a_Chunk"
    if "DrawRoad_MaxX E a_Chunk a_Road < DrawRoad_MinX E a_Chunk a_Road
        \<or> DrawRoad_MaxZ E a_Chunk a_Road < DrawRoad_MinZ E a_Chunk a_Road"
  proof -
    from that have "(\<lambda>(a, b, c).
          if DrawRoad_MinZ E a_Chunk a_Road \<le> c \<and> c \<le> DrawRoad_MaxZ E a_Chunk a_Road
             \<and> DrawRoad_MinX E a_Chunk a_Road \<le> a \<and> a \<le> DrawRoad_MaxX E a_Chunk a_Road
             \<and> b = ext_GetHeight E a_HeightMap a c
          then paved E V a_Chunk (a, b, c) else m_BlockTypes a_Chunk (a, b, c))
        = m_BlockTypes a_Chunk"
      by (auto simp: fun_eq_iff)
    then show ?thesis by (simp add: DrawRoad_blocks)
  qed
  from part1 part2 show ?thesis by blast
qed


text \<open>
  The far chunk is left as it was; in the chunk the road crosses, the block at
  \<open>(3, 70, 13)\<close> changes, and 3 lies between the lower bound of the footprint and 15.
\<close>

theorem DrawRoad_stays_in_chunk_witness:
  "DrawRoad ex_E ex_V ex_FarChunk ex_PlacedRoad ex_HeightMap = ex_FarChunk
   \<and> GetBlockType (DrawRoad ex_E ex_V ex_Chunk ex_PlacedRoad ex_HeightMap) 3 70 13
       \<noteq> GetBlockType ex_Chunk 3 70 13
   \<and> DrawRoad_MinX ex_E ex_Chunk ex_PlacedRoad \<le> 3 \<and> 3 \<le> ext_Width ex_E - 1"
proof -
  have far: "DrawRoad_MaxX ex_E ex_FarChunk ex_PlacedRoad
               < DrawRoad_MinX ex_E ex_FarChunk ex_PlacedRoad"
    by (simp add: DrawRoad_MinX_def DrawRoad_MaxX_def ex_E_def ex_FarChunk_def ex_Chunk_def
          ex_PlacedRoad_def ex_Placed_def ex_Road_def)
  have changed: "GetBlockType (DrawRoad ex_E ex_V ex_Chunk ex_PlacedRoad ex_HeightMap) 3 70 13
                   \<noteq> GetBlockType ex_Chunk 3 70 13"
    by (simp add: DrawRoad_blocks ex_bounds ex_heights GetBlockType_def paved_def)
       (simp add: ex_Chunk_def ex_E_def ex_V_def cVillage_init_def)
  from DrawRoad_stays_in_chunk [of ex_E ex_V ex_FarChunk ex_PlacedRoad ex_HeightMap] far
  have a: "DrawRoad ex_E ex_V ex_FarChunk ex_PlacedRoad ex_HeightMap = ex_FarChunk"
    by blast
  from DrawRoad_stays_in_chunk [of ex_E ex_V ex_Chunk ex_PlacedRoad ex_HeightMap] changed
  have b: "DrawRoad_MinX ex_E ex_Chunk ex_PlacedRoad \<le> 3 \<and> 3 \<le> ext_Width ex_E - 1"
    by blast
  from a b changed show ?thesis by blast
qed

subsection \<open>The road pieces of a style pool\<close>

lemma side_positions_empty: "\<not> first < len \<Longrightarrow> side_positions first len = {}"
  by (auto simp: side_positions_def)

lemma side_positions_step:
  assumes "first < len"
  shows "side_positions first len = insert first (side_positions (first + 12) len)"
proof -
  have "first \<le> x \<and> x < len \<and> (x - first) mod 12 = 0 \<longleftrightarrow>
          x = first \<or> (first + 12 \<le> x \<and> x < len \<and> (x - (first + 12)) mod 12 = 0)" for x
    using assms by presburger
  then show ?thesis
    by (simp add: side_positions_def set_eq_iff)
qed

lemma side_connectors_empty: "\<not> first < len \<Longrightarrow> side_connectors first len t = {}"
  by (simp add: side_connectors_def side_positions_empty)

lemma side_connectors_step:
  assumes "first < len"
  shows "side_connectors first len t =
           {\<lparr> m_Pos = \<lparr> vx = first, vy = 0, vz = 0 \<rparr>, m_Direction = BLOCK_FACE_ZM, m_Type = t \<rparr>,
            \<lparr> m_Pos = \<lparr> vx = first, vy = 0, vz = 2 \<rparr>, m_Direction = BLOCK_FACE_ZP, m_Type = t \<rparr>}
           \<union> side_connectors (first + 12) len t"
  by (simp add: side_connectors_def side_positions_step [OF assms])

lemma AddRoadConnectors_fields:
  "m_Size (AddRoadConnectors P len x) = m_Size P"
proof (induction P len x rule: AddRoadConnectors.induct)
  case (1 P len x)
  then show ?case
    by (subst AddRoadConnectors.simps) (simp add: AddConnector_def)
qed

lemma AddBuildingConnectors_fields:
  "m_Size (AddBuildingConnectors P len x) = m_Size P"
proof (induction P len x rule: AddBuildingConnectors.induct)
  case (1 P len x)
  then show ?case
    by (subst AddBuildingConnectors.simps) (simp add: AddConnector_def)
qed

lemma AddRoadConnectors_connectors:
  "\<exists>ys. m_Connectors (AddRoadConnectors P len x) = m_Connectors P @ ys
        \<and> set ys = side_connectors x len 2"
proof (induction P len x rule: AddRoadConnectors.induct)
  case (1 P len x)
  show ?case
  proof (cases "x < len")
    case False
    then show ?thesis
      by (subst AddRoadConnectors.simps) (simp add: side_connectors_empty)
  next
    case True
    from "1.IH" [OF True] obtain ys where
      ys: "m_Connectors (AddRoadConnectors
             (AddConnector (AddConnector P x 0 0 BLOCK_FACE_ZM 2) x 0 2 BLOCK_FACE_ZP 2)
             len (x + 12))
           = m_Connectors (AddConnector (AddConnector P x 0 0 BLOCK_FACE_ZM 2) x 0 2 BLOCK_FACE_ZP 2) @ ys"
      and set: "set ys = side_connectors (x + 12) len 2"
      by blast
    have "m_Connectors (AddRoadConnectors P len x) = m_Connectors P @
            (\<lparr> m_Pos = \<lparr> vx = x, vy = 0, vz = 0 \<rparr>, m_Direction = BLOCK_FACE_ZM, m_Type = 2 \<rparr>
             # \<lparr> m_Pos = \<lparr> vx = x, vy = 0, vz = 2 \<rparr>, m_Direction = BLOCK_FACE_ZP, m_Type = 2 \<rparr>
             # ys)"
      using True ys by (subst AddRoadConnectors.simps) (simp add: AddConnector_def)
    moreover have "set (\<lparr> m_Pos = \<lparr> vx = x, vy = 0, vz = 0 \<rparr>, m_Direction = BLOCK_FACE_ZM, m_Type = 2 \<rparr>
             # \<lparr> m_Pos = \<lparr> vx = x, vy = 0, vz = 2 \<rparr>, m_Direction = BLOCK_FACE_ZP, m_Type = 2 \<rparr>
             # ys) = side_connectors x len 2"
      using set by (simp add: side_connectors_step [OF True])
    ultimately show ?thesis by blast
  qed
qed

lemma AddBuildingConnectors_connectors:
  "\<exists>ys. m_Connectors (AddBuildingConnectors P len x) = m_Connectors P @ ys
        \<and> set ys = side_connectors x len 1"
proof (induction P len x rule: AddBuildingConnectors.induct)
  case (1 P len x)
  show ?case
  proof (cases "x < len")
    case False
    then show ?thesis
      by (subst AddBuildingConnectors.simps) (simp add: side_connectors_empty)
  next
    case True
    from "1.IH" [OF True] obtain ys where
      ys: "m_Connectors (AddBuildingConnectors
             (AddConnector (AddConnector P x 0 0 BLOCK_FACE_ZM 1) x 0 2 BLOCK_FACE_ZP 1)
             len (x + 12))
           = m_Connectors (AddConnector (AddConnector P x 0 0 BLOCK_FACE_ZM 1) x 0 2 BLOCK_FACE_ZP 1) @ ys"
      and set: "set ys = side_connectors (x + 12) len 1"
      by blast
    have "m_Connectors (AddBuildingConnectors P len x) = m_Connectors P @
            (\<lparr> m_Pos = \<lparr> vx = x, vy = 0, vz = 0 \<rparr>, m_Direction = BLOCK_FACE_ZM, m_Type = 1 \<rparr>
             # \<lparr> m_Pos = \<lparr> vx = x, vy = 0, vz = 2 \<rparr>, m_Direction = BLOCK_FACE_ZP, m_Type = 1 \<rparr>
             # ys)"
      using True ys by (subst AddBuildingConnectors.simps) (simp add: AddConnector_def)
    moreover have "set (\<lparr> m_Pos = \<lparr> vx = x, vy = 0, vz = 0 \<rparr>, m_Direction = BLOCK_FACE_ZM, m_Type = 1 \<rparr>
             # \<lparr> m_Pos = \<lparr> vx = x, vy = 0, vz = 2 \<rparr>, m_Direction = BLOCK_FACE_ZP, m_Type = 1 \<rparr>
             # ys) = side_connectors x len 1"
      using set by (simp add: side_connectors_step [OF True])
    ultimately show ?thesis by blast
  qed
qed

lemma side_connectors_type: "c \<in> side_connectors first len t \<Longrightarrow> m_Type c = t"
  by (auto simp: side_connectors_def)

lemma MakeRoadPiece_connectors:
  "\<exists>ys2 ys1. m_Connectors (MakeRoadPiece L) =
      [\<lparr> m_Pos = \<lparr> vx = 0, vy = 0, vz = 1 \<rparr>, m_Direction = BLOCK_FACE_XM, m_Type = - 2 \<rparr>,
       \<lparr> m_Pos = \<lparr> vx = L - 1, vy = 0, vz = 1 \<rparr>, m_Direction = BLOCK_FACE_XP, m_Type = - 2 \<rparr>]
      @ ys2 @ ys1
     \<and> set ys2 = side_connectors 1 L 2 \<and> set ys1 = side_connectors 7 L 1"
proof -
  define P0 where "P0 = SetDefaultWeight
               (AddConnector
                 (AddConnector (cPrefab_of_BlockArea \<lparr> vx = L, vy = 1, vz = 3 \<rparr> 1)
                    0 0 1 BLOCK_FACE_XM (- 2))
                 (L - 1) 0 1 BLOCK_FACE_XP (- 2)) 100"
  define P2 where "P2 = AddRoadConnectors P0 L 1"
  obtain ys2 where ys2: "m_Connectors P2 = m_Connectors P0 @ ys2"
      "set ys2 = side_connectors 1 L 2"
    unfolding P2_def using AddRoadConnectors_connectors [of P0 L 1] by blast
  obtain ys1 where ys1: "m_Connectors (AddBuildingConnectors P2 L 7) = m_Connectors P2 @ ys1"
      "set ys1 = side_connectors 7 L 1"
    using AddBuildingConnectors_connectors [of P2 L 7] by blast
  have P0: "m_Connectors P0 =
      [\<lparr> m_Pos = \<lparr> vx = 0, vy = 0, vz = 1 \<rparr>, m_Direction = BLOCK_FACE_XM, m_Type = - 2 \<rparr>,
       \<lparr> m_Pos = \<lparr> vx = L - 1, vy = 0, vz = 1 \<rparr>, m_Direction = BLOCK_FACE_XP, m_Type = - 2 \<rparr>]"
    by (simp add: P0_def SetDefaultWeight_def AddConnector_def cPrefab_of_BlockArea_def)
  have M: "MakeRoadPiece L = AddBuildingConnectors P2 L 7"
    by (simp only: MakeRoadPiece_def Let_def P2_def P0_def)
  have "m_Connectors (MakeRoadPiece L) =
      [\<lparr> m_Pos = \<lparr> vx = 0, vy = 0, vz = 1 \<rparr>, m_Direction = BLOCK_FACE_XM, m_Type = - 2 \<rparr>,
       \<lparr> m_Pos = \<lparr> vx = L - 1, vy = 0, vz = 1 \<rparr>, m_Direction = BLOCK_FACE_XP, m_Type = - 2 \<rparr>]
      @ ys2 @ ys1"
    by (simp only: M ys1(1) ys2(1) P0 append_assoc)
  with ys2(2) ys1(2) show ?thesis
    by (intro exI [of _ ys2] exI [of _ ys1] conjI)
qed

lemma AddRoadPieces_all:
  "m_AllPieces (cVillagePiecePool_ctor super) =
     m_AllPieces super @ [MakeRoadPiece 27, MakeRoadPiece 39, MakeRoadPiece 51]"
  by (simp add: cVillagePiecePool_ctor_def AddRoadPieces.simps Let_def)


lemma MakeRoadPiece_size: "m_Size (MakeRoadPiece L) = \<lparr> vx = L, vy = 1, vz = 3 \<rparr>"
  by (simp add: MakeRoadPiece_def Let_def AddBuildingConnectors_fields AddRoadConnectors_fields
        SetDefaultWeight_def AddConnector_def cPrefab_of_BlockArea_def)

lemma filter_none: "(\<And>c. c \<in> set ys \<Longrightarrow> \<not> P c) \<Longrightarrow> filter P ys = []"
  by (induction ys) auto


text \<open>
  C5. The constructor of a style pool appends exactly three road pieces to the pieces of
  the prefab tables: those of length 27, 39 and 51. The road piece of length \<open>L\<close> has the
  size \<open>(L, 1, 3)\<close>: height 1 and width 3. Its connectors of type -2 are exactly two, at
  \<open>x = 0\<close> and \<open>x = L - 1\<close>; its connectors of type 2 are those at \<open>x = 1, 13, 25, ...\<close> below
  \<open>L\<close> on both long edges; its connectors of type 1 are those at \<open>x = 7, 19, ...\<close> below \<open>L\<close>
  on both long edges; and it has no connector of another type.
\<close>

theorem road_pieces:
  "m_AllPieces (cVillagePiecePool_ctor super) =
     m_AllPieces super @ [MakeRoadPiece 27, MakeRoadPiece 39, MakeRoadPiece 51]
   \<and> m_Size (MakeRoadPiece L) = \<lparr> vx = L, vy = 1, vz = 3 \<rparr>
   \<and> filter (\<lambda>c. m_Type c = - 2) (m_Connectors (MakeRoadPiece L)) =
       [\<lparr> m_Pos = \<lparr> vx = 0, vy = 0, vz = 1 \<rparr>, m_Direction = BLOCK_FACE_XM, m_Type = - 2 \<rparr>,
        \<lparr> m_Pos = \<lparr> vx = L - 1, vy = 0, vz = 1 \<rparr>, m_Direction = BLOCK_FACE_XP, m_Type = - 2 \<rparr>]
   \<and> {c \<in> set (m_Connectors (MakeRoadPiece L)). m_Type c = 2} = side_connectors 1 L 2
   \<and> {c \<in> set (m_Connectors (MakeRoadPiece L)). m_Type c = 1} = side_connectors 7 L 1
   \<and> m_Type ` set (m_Connectors (MakeRoadPiece L)) \<subseteq> {- 2, 1, 2}"
proof -
  obtain ys2 ys1 where
    conns: "m_Connectors (MakeRoadPiece L) =
      [\<lparr> m_Pos = \<lparr> vx = 0, vy = 0, vz = 1 \<rparr>, m_Direction = BLOCK_FACE_XM, m_Type = - 2 \<rparr>,
       \<lparr> m_Pos = \<lparr> vx = L - 1, vy = 0, vz = 1 \<rparr>, m_Direction = BLOCK_FACE_XP, m_Type = - 2 \<rparr>]
      @ ys2 @ ys1"
    and ys2: "set ys2 = side_connectors 1 L 2" and ys1: "set ys1 = side_connectors 7 L 1"
    using MakeRoadPiece_connectors [of L] by blast
  have t2: "m_Type c = 2" if "c \<in> set ys2" for c
    using that ys2 side_connectors_type by blast
  have t1: "m_Type c = 1" if "c \<in> set ys1" for c
    using that ys1 side_connectors_type by blast
  have ends: "filter (\<lambda>c. m_Type c = - 2) ys2 = []" "filter (\<lambda>c. m_Type c = - 2) ys1 = []"
    using t2 t1 by (auto intro!: filter_none)
  have "filter (\<lambda>c. m_Type c = - 2) (m_Connectors (MakeRoadPiece L)) =
       [\<lparr> m_Pos = \<lparr> vx = 0, vy = 0, vz = 1 \<rparr>, m_Direction = BLOCK_FACE_XM, m_Type = - 2 \<rparr>,
        \<lparr> m_Pos = \<lparr> vx = L - 1, vy = 0, vz = 1 \<rparr>, m_Direction = BLOCK_FACE_XP, m_Type = - 2 \<rparr>]"
    by (simp add: conns ends)
  moreover have "{c \<in> set (m_Connectors (MakeRoadPiece L)). m_Type c = 2} = side_connectors 1 L 2"
    using t2 t1 ys2 by (auto simp: conns)
  moreover have "{c \<in> set (m_Connectors (MakeRoadPiece L)). m_Type c = 1} = side_connectors 7 L 1"
    using t2 t1 ys1 by (auto simp: conns)
  moreover have "m_Type ` set (m_Connectors (MakeRoadPiece L)) \<subseteq> {- 2, 1, 2}"
    using t2 t1 by (auto simp: conns)
  ultimately show ?thesis
    using AddRoadPieces_all MakeRoadPiece_size by simp
qed

subsection \<open>CreateStructure\<close>

lemma ScanBiomes_unfriendly:
  "\<not> list_all village_friendly bs \<Longrightarrow> ScanBiomes D P bs vp = Bailed"
proof (induction bs arbitrary: vp)
  case Nil
  then show ?case by simp
next
  case (Cons b bs)
  then show ?case
    by (cases b) (auto simp: village_friendly_def desert_family_def plains_family_def)
qed

lemma ScanBiomes_friendly:
  "list_all village_friendly bs \<Longrightarrow>
     ScanBiomes D P bs vp =
       Scanned (if bs = [] then vp else Some (if desert_family (last bs) then D else P))"
proof (induction bs arbitrary: vp)
  case Nil
  then show ?case by simp
next
  case (Cons b bs)
  then show ?case
    by (cases b) (auto simp: village_friendly_def desert_family_def plains_family_def)
qed

lemma CreateStructure_rejects:
  assumes "\<not> list_all village_friendly (sampled_biomes E G ox oz) \<or> sampled_biomes E G ox oz = []"
  shows "CreateStructure E G gx gz ox oz = None"
proof -
  obtain cx cz where c: "ext_BlockToChunk E ox oz = (cx, cz)"
    by (cases "ext_BlockToChunk E ox oz")
  have s: "sampled_biomes E G ox oz = gen_BiomeGen G cx cz"
    by (simp add: sampled_biomes_def c)
  from assms s have scan: "ScanBiomes D P (gen_BiomeGen G cx cz) None = Bailed
      \<or> ScanBiomes D P (gen_BiomeGen G cx cz) None = Scanned None" for D P
    using ScanBiomes_unfriendly [of "gen_BiomeGen G cx cz" D P None] by auto
  show ?thesis
    unfolding CreateStructure_def c Let_def prod.case
    using scan [of "g_DesertVillagePools !
                      nat (to_size_t (ext_IntNoise2DInt E (gen_Noise G) ox oz sdiv 11)
                             mod int (length g_DesertVillagePools))"
                   "g_PlainsVillagePools !
                      nat (to_size_t (ext_IntNoise2DInt E (gen_Noise G) ox oz sdiv 11)
                             mod int (length g_PlainsVillagePools))"]
    by (elim disjE) simp_all
qed

lemma CreateStructure_accepts:
  assumes "list_all village_friendly (sampled_biomes E G ox oz)"
    and "sampled_biomes E G ox oz \<noteq> []"
  shows "CreateStructure E G gx gz ox oz =
         Some (cVillage_ctor E (gen_Seed G) gx gz ox oz (gen_MaxDepth G) (gen_MaxSize G)
                 (chosen_density E G ox oz)
                 (cVillagePiecePool_as_pool E (g_VillagePool E (chosen_style E G ox oz)))
                 (gen_HeightGen G) E_BLOCK_GRAVEL E_BLOCK_PLANKS)"
proof -
  obtain cx cz where c: "ext_BlockToChunk E ox oz = (cx, cz)"
    by (cases "ext_BlockToChunk E ox oz")
  have s: "sampled_biomes E G ox oz = gen_BiomeGen G cx cz"
    by (simp add: sampled_biomes_def c)
  have scan: "ScanBiomes D P (gen_BiomeGen G cx cz) None =
                Scanned (Some (if desert_family (last (gen_BiomeGen G cx cz)) then D else P))"
    for D P
    using assms ScanBiomes_friendly [of "gen_BiomeGen G cx cz" D P None] by (simp add: s)
  show ?thesis
    by (simp add: CreateStructure_def c Let_def scan chosen_density_def chosen_style_def
          origin_hash_def s g_DesertVillagePools_def g_PlainsVillagePools_def)
qed

lemma cVillage_ctor_fields:
  "m_Density (cVillage_ctor E seed gx gz ox oz depth msize dens prefabs hg rb wrb) = dens"
  "m_Prefabs (cVillage_ctor E seed gx gz ox oz depth msize dens prefabs hg rb wrb) = prefabs"
  "m_Noise (cVillage_ctor E seed gx gz ox oz depth msize dens prefabs hg rb wrb) = seed"
  "m_RoadBlock (cVillage_ctor E seed gx gz ox oz depth msize dens prefabs hg rb wrb) = rb"
  "m_WaterRoadBlock (cVillage_ctor E seed gx gz ox oz depth msize dens prefabs hg rb wrb) = wrb"
  by (simp_all add: cVillage_ctor_def cVillage_init_def Let_def)


lemma cVillage_as_pool_ctor:
  "cVillage_as_pool E (cVillage_ctor E seed gx gz ox oz depth msize dens prefabs hg rb wrb) =
   cVillage_as_pool E (cVillage_init E seed gx gz ox oz msize dens prefabs hg rb wrb)"
  by (simp add: cVillage_as_pool_def cVillage_ctor_def Let_def cVillage_GetPieceWeight_def
        fun_eq_iff)

lemma cVillage_ctor_empty:
  "ext_PlacePieces E
     (cVillage_as_pool E (cVillage_init E seed gx gz ox oz msize dens prefabs hg rb wrb))
     seed ox 0 oz (depth + 1) = []
   \<Longrightarrow> m_Pieces (cVillage_ctor E seed gx gz ox oz depth msize dens prefabs hg rb wrb) = []"
  by (simp add: cVillage_ctor_def Let_def)

lemma list_all_replicate: "list_all P (replicate n x) \<longleftrightarrow> n = 0 \<or> P x"
  by (induction n) auto

lemma ex_friendly:
  "village_friendly biPlains" "village_friendly biDesert" "\<not> village_friendly (biOtherBiome n)"
  "plains_family biPlains" "\<not> desert_family biPlains"
  by (simp_all add: village_friendly_def desert_family_def plains_family_def)

lemma ex_sample_plains: "sampled_biomes ex_E ex_G 0 0 = replicate 256 biPlains"
  by (simp add: sampled_biomes_def ex_E_def ex_G_def cVillageGen_ctor_def)

lemma ex_sample_empty_engine: "sampled_biomes ex_E_empty ex_G 0 0 = replicate 256 biPlains"
  by (simp add: sampled_biomes_def ex_E_def ex_E_empty_def ex_G_def cVillageGen_ctor_def)

lemma ex_sample_mixed:
  "sampled_biomes ex_E ex_G_mixed 0 0 = replicate 255 biDesert @ [biPlains]"
  by (simp add: sampled_biomes_def ex_E_def ex_G_mixed_def)

lemma ex_sample_ocean:
  "sampled_biomes ex_E ex_G_ocean 0 0 = replicate 255 biPlains @ [biOtherBiome 0]"
  by (simp add: sampled_biomes_def ex_E_def ex_G_ocean_def)


lemma ex_hash_plains: "origin_hash ex_E ex_G 0 0 = 91"
  by (simp add: origin_hash_def ex_E_def ex_G_def cVillageGen_ctor_def signed_divide_int_def)

lemma ex_hash_mixed: "origin_hash ex_E ex_G_mixed 0 0 = 91"
  by (simp add: origin_hash_def ex_E_def ex_G_def ex_G_mixed_def cVillageGen_ctor_def
        signed_divide_int_def)

text \<open>
  C3, as stated, fails: a biome map of 255 desert columns and one plains column is
  village-friendly throughout and mixes the two families, and \<open>CreateStructure\<close> returns a
  structure for it.
\<close>

theorem CreateStructure_mixed_counterexample:
  "biDesert \<in> set (sampled_biomes ex_E ex_G_mixed 0 0)
   \<and> biPlains \<in> set (sampled_biomes ex_E ex_G_mixed 0 0)
   \<and> length (sampled_biomes ex_E ex_G_mixed 0 0) = 256
   \<and> list_all village_friendly (sampled_biomes ex_E ex_G_mixed 0 0)
   \<and> CreateStructure ex_E ex_G_mixed 0 0 0 0 \<noteq> None"
proof -
  have fr: "list_all village_friendly (sampled_biomes ex_E ex_G_mixed 0 0)"
    by (simp add: ex_sample_mixed list_all_replicate ex_friendly)
  have ne: "sampled_biomes ex_E ex_G_mixed 0 0 \<noteq> []"
    by (simp add: ex_sample_mixed)
  from CreateStructure_accepts [OF fr ne, of 0 0]
  have "CreateStructure ex_E ex_G_mixed 0 0 0 0 \<noteq> None" by simp
  with fr show ?thesis by (simp add: ex_sample_mixed)
qed

text \<open>
  C3, amended. When every sampled biome is village-friendly (and the sample is not empty),
  \<open>CreateStructure\<close> produces a structure, also when desert-family and plains-family biomes
  are both present. Its style pool is decided by the last sampled biome: the desert pool
  that the hash selects if that biome is of the desert family, the plains pool that the
  hash selects otherwise.
\<close>

theorem CreateStructure_mixed_families:
  "list_all village_friendly (sampled_biomes E G ox oz) \<and> sampled_biomes E G ox oz \<noteq> [] \<longrightarrow>
     (\<exists>V. CreateStructure E G gx gz ox oz = Some V
          \<and> m_Prefabs V = cVillagePiecePool_as_pool E (g_VillagePool E
              (if desert_family (last (sampled_biomes E G ox oz))
               then g_DesertVillagePools ! nat (to_size_t (origin_hash E G ox oz) mod 3)
               else g_PlainsVillagePools ! nat (to_size_t (origin_hash E G ox oz) mod 2))))"
  using CreateStructure_accepts [of E G ox oz gx gz]
  by (auto simp: cVillage_ctor_fields chosen_style_def)

text \<open>
  For the mixed map the last biome is plains and the hash 91 is odd: the village is built
  from the second plains pool.
\<close>

theorem CreateStructure_mixed_families_witness:
  "map_option m_Prefabs (CreateStructure ex_E ex_G_mixed 0 0 0 0) =
     Some (cVillagePiecePool_as_pool ex_E (g_VillagePool ex_E g_JapaneseVillage))"
proof -
  have fr: "list_all village_friendly (sampled_biomes ex_E ex_G_mixed 0 0)"
    by (simp add: ex_sample_mixed list_all_replicate ex_friendly)
  have ne: "sampled_biomes ex_E ex_G_mixed 0 0 \<noteq> []"
    by (simp add: ex_sample_mixed)
  have last: "\<not> desert_family (last (sampled_biomes ex_E ex_G_mixed 0 0))"
    by (simp add: ex_sample_mixed ex_friendly)
  have st: "g_PlainsVillagePools ! nat (to_size_t (origin_hash ex_E ex_G_mixed 0 0) mod 2)
              = g_JapaneseVillage"
    by (simp add: ex_hash_mixed to_size_t_def g_PlainsVillagePools_def)
  from CreateStructure_mixed_families [of ex_E ex_G_mixed 0 0 0 0] fr ne
  obtain V where "CreateStructure ex_E ex_G_mixed 0 0 0 0 = Some V"
    and "m_Prefabs V = cVillagePiecePool_as_pool ex_E (g_VillagePool ex_E
              (if desert_family (last (sampled_biomes ex_E ex_G_mixed 0 0))
               then g_DesertVillagePools ! nat (to_size_t (origin_hash ex_E ex_G_mixed 0 0) mod 3)
               else g_PlainsVillagePools ! nat (to_size_t (origin_hash ex_E ex_G_mixed 0 0) mod 2)))"
    by blast
  with last st show ?thesis by simp
qed


lemma ex_empty_fields:
  "ext_PlacePieces ex_E_empty = (\<lambda>pool seed ax ay az depth. [])"
  by (simp add: ex_E_empty_def)

text \<open>
  C6, as stated, fails: with an assembly engine that places no piece and a village-friendly
  biome map, \<open>CreateStructure\<close> returns a structure, whose piece list is empty.
\<close>

theorem CreateStructure_empty_assembly_counterexample:
  "ext_PlacePieces ex_E_empty = (\<lambda>pool seed ax ay az depth. [])
   \<and> list_all village_friendly (sampled_biomes ex_E_empty ex_G 0 0)
   \<and> CreateStructure ex_E_empty ex_G 0 0 0 0 \<noteq> None
   \<and> map_option m_Pieces (CreateStructure ex_E_empty ex_G 0 0 0 0) = Some []"
proof -
  have fr: "list_all village_friendly (sampled_biomes ex_E_empty ex_G 0 0)"
    by (simp add: ex_sample_empty_engine list_all_replicate ex_friendly)
  have ne: "sampled_biomes ex_E_empty ex_G 0 0 \<noteq> []"
    by (simp add: ex_sample_empty_engine)
  note acc = CreateStructure_accepts [OF fr ne, of 0 0]
  have "map_option m_Pieces (CreateStructure ex_E_empty ex_G 0 0 0 0) = Some []"
    unfolding acc by (simp add: cVillage_ctor_empty ex_empty_fields)
  with fr ex_empty_fields show ?thesis by auto
qed

text \<open>
  C6, amended. \<open>CreateStructure\<close> returns none exactly when a sampled biome is
  village-unfriendly (or the biome map has no entry at all, which leaves the pool pointer
  null); in every other case it returns a structure. When the assembly, run with the
  village as its pool, yields an empty piece set, the structure returned has no pieces.
\<close>

theorem CreateStructure_none_iff:
  "(CreateStructure E G gx gz ox oz = None \<longleftrightarrow>
      \<not> list_all village_friendly (sampled_biomes E G ox oz) \<or> sampled_biomes E G ox oz = [])
   \<and> (\<forall>V. CreateStructure E G gx gz ox oz = Some V
          \<and> ext_PlacePieces E (cVillage_as_pool E V) (gen_Seed G) ox 0 oz (gen_MaxDepth G + 1) = []
        \<longrightarrow> m_Pieces V = [])"
proof (intro conjI allI impI)
  show "CreateStructure E G gx gz ox oz = None \<longleftrightarrow>
      \<not> list_all village_friendly (sampled_biomes E G ox oz) \<or> sampled_biomes E G ox oz = []"
  proof (cases "list_all village_friendly (sampled_biomes E G ox oz)
                  \<and> sampled_biomes E G ox oz \<noteq> []")
    case True
    with CreateStructure_accepts [of E G ox oz gx gz] show ?thesis by simp
  next
    case False
    with CreateStructure_rejects [of E G ox oz gx gz] show ?thesis by blast
  qed
next
  fix V
  assume a: "CreateStructure E G gx gz ox oz = Some V
          \<and> ext_PlacePieces E (cVillage_as_pool E V) (gen_Seed G) ox 0 oz (gen_MaxDepth G + 1) = []"
  then have "list_all village_friendly (sampled_biomes E G ox oz)"
    and "sampled_biomes E G ox oz \<noteq> []"
    using CreateStructure_rejects [of E G ox oz gx gz] by auto
  from CreateStructure_accepts [OF this, of gx gz] a
  have V: "V = cVillage_ctor E (gen_Seed G) gx gz ox oz (gen_MaxDepth G) (gen_MaxSize G)
                 (chosen_density E G ox oz)
                 (cVillagePiecePool_as_pool E (g_VillagePool E (chosen_style E G ox oz)))
                 (gen_HeightGen G) E_BLOCK_GRAVEL E_BLOCK_PLANKS"
    by simp
  from a show "m_Pieces V = []"
    unfolding V cVillage_as_pool_ctor by (rule cVillage_ctor_empty [OF conjunct2])
qed

text \<open>
  One unfriendly column rejects the location; the all-plains map is accepted; and with the
  engine that places nothing the accepted location yields a structure without pieces.
\<close>

theorem CreateStructure_none_iff_witness:
  "CreateStructure ex_E ex_G_ocean 0 0 0 0 = None
   \<and> CreateStructure ex_E ex_G 0 0 0 0 \<noteq> None
   \<and> map_option m_Pieces (CreateStructure ex_E_empty ex_G 0 0 0 0) = Some []"
proof -
  have oc: "\<not> list_all village_friendly (sampled_biomes ex_E ex_G_ocean 0 0)"
    by (simp add: ex_sample_plains ex_sample_ocean ex_sample_empty_engine list_all_replicate ex_friendly)
  have fr: "list_all village_friendly (sampled_biomes ex_E ex_G 0 0)"
      "sampled_biomes ex_E ex_G 0 0 \<noteq> []"
    by (simp_all add: ex_sample_plains ex_sample_ocean ex_sample_empty_engine list_all_replicate ex_friendly)
  have fre: "list_all village_friendly (sampled_biomes ex_E_empty ex_G 0 0)"
      "sampled_biomes ex_E_empty ex_G 0 0 \<noteq> []"
    by (simp_all add: ex_sample_plains ex_sample_ocean ex_sample_empty_engine list_all_replicate ex_friendly)
  from CreateStructure_none_iff [of ex_E ex_G_ocean 0 0 0 0] oc
  have a: "CreateStructure ex_E ex_G_ocean 0 0 0 0 = None" by blast
  from CreateStructure_none_iff [of ex_E ex_G 0 0 0 0] fr
  have b: "CreateStructure ex_E ex_G 0 0 0 0 \<noteq> None" by blast
  from CreateStructure_none_iff [of ex_E_empty ex_G 0 0 0 0] fre
  obtain V where V: "CreateStructure ex_E_empty ex_G 0 0 0 0 = Some V" by blast
  with CreateStructure_none_iff [of ex_E_empty ex_G 0 0 0 0]
  have "m_Pieces V = []" by (simp add: ex_empty_fields)
  with V a b show ?thesis by simp
qed

text \<open>
  C8. For every configuration and every origin at which \<open>CreateStructure\<close> returns a
  structure, the density of the structure is \<open>minDensity + rnd % (maxDensity - minDensity)\<close>
  when \<open>maxDensity > minDensity\<close>, with \<open>rnd\<close> the hash of the origin divided by 11 and \<open>%\<close>
  the truncating remainder, and it is \<open>minDensity\<close> otherwise.
\<close>

theorem CreateStructure_density:
  "CreateStructure E G gx gz ox oz = Some V \<longrightarrow>
     m_Density V =
       (if gen_MaxDensity G > gen_MinDensity G
        then gen_MinDensity G + origin_hash E G ox oz smod (gen_MaxDensity G - gen_MinDensity G)
        else gen_MinDensity G)"
proof
  assume a: "CreateStructure E G gx gz ox oz = Some V"
  then have "list_all village_friendly (sampled_biomes E G ox oz)"
    and "sampled_biomes E G ox oz \<noteq> []"
    using CreateStructure_rejects [of E G ox oz gx gz] by auto
  from CreateStructure_accepts [OF this, of gx gz] a
  have "m_Density V = chosen_density E G ox oz"
    by (auto simp: cVillage_ctor_fields)
  then show "m_Density V =
       (if gen_MaxDensity G > gen_MinDensity G
        then gen_MinDensity G + origin_hash E G ox oz smod (gen_MaxDensity G - gen_MinDensity G)
        else gen_MinDensity G)"
    by (simp add: chosen_density_def)
qed

text \<open>
  With densities 30 to 80 and the hash 91 the density is \<open>30 + 91 % 50 = 71\<close>; with the
  minimum 80 above the maximum 30 it is 80.
\<close>

theorem CreateStructure_density_witness:
  "map_option m_Density (CreateStructure ex_E ex_G 0 0 0 0) = Some 71
   \<and> map_option m_Density (CreateStructure ex_E ex_G_fixed 0 0 0 0) = Some 80"
proof -
  have fr: "list_all village_friendly (sampled_biomes ex_E ex_G 0 0)"
      "sampled_biomes ex_E ex_G 0 0 \<noteq> []"
    by (simp_all add: ex_sample_plains list_all_replicate ex_friendly)
  have frf: "list_all village_friendly (sampled_biomes ex_E ex_G_fixed 0 0)"
      "sampled_biomes ex_E ex_G_fixed 0 0 \<noteq> []"
    by (simp_all add: sampled_biomes_def ex_G_fixed_def ex_G_def cVillageGen_ctor_def
          list_all_replicate ex_friendly)
  obtain V where V: "CreateStructure ex_E ex_G 0 0 0 0 = Some V"
    using CreateStructure_accepts [OF fr] by blast
  obtain W where W: "CreateStructure ex_E ex_G_fixed 0 0 0 0 = Some W"
    using CreateStructure_accepts [OF frf] by blast
  have dens: "gen_MinDensity ex_G = 30" "gen_MaxDensity ex_G = 80"
    "gen_MinDensity ex_G_fixed = 80" "gen_MaxDensity ex_G_fixed = 30"
    by (simp_all add: ex_G_fixed_def ex_G_def cVillageGen_ctor_def)
  have sm: "(91 :: int) smod 50 = 41"
    by (simp add: signed_modulo_int_def)
  from CreateStructure_density [of ex_E ex_G 0 0 0 0 V] V
  have "m_Density V = 71" by (simp add: dens ex_hash_plains sm)
  moreover from CreateStructure_density [of ex_E ex_G_fixed 0 0 0 0 W] W
  have "m_Density W = 80" by (simp add: dens)
  ultimately show ?thesis using V W by simp
qed

end
